theory Spec2Isabelle
  imports Main
begin

section \<open>Data model (types.ts)\<close>

text \<open>
  A JavaScript string is modelled as a \<^typ>\<open>string\<close>; each \<^typ>\<open>char\<close> stands for one
  UTF-16 code unit in the range 0..255. \<open>Task\<close> and \<open>ScheduleBlock\<close> are the two
  interfaces of \<^verbatim>\<open>types.ts\<close>. The fields \<^verbatim>\<open>text\<close>, \<^verbatim>\<open>notes\<close> and \<^verbatim>\<open>id\<close> are
  called \<open>task_text\<close>, \<open>task_notes\<close> and \<open>block_id\<close>, since the source names are taken in Isabelle.

  A block id is a \<^typ>\<open>nat\<close>: the parser assigns array positions and no operation
  changes them. A task index handed to a store operation is an \<^typ>\<open>int\<close>, because
  \<^verbatim>\<open>Array.prototype.splice\<close> and indexed reads treat negative and too large numbers
  differently, and the model writes that out.

  The static type of \<^verbatim>\<open>tasks\<close> is \<^verbatim>\<open>Task[]\<close>, but at run time
  \<^verbatim>\<open>handleReorderTasks\<close> can store \<^verbatim>\<open>undefined\<close> in the array (which the JSON copy
  of the next edit turns into \<^verbatim>\<open>null\<close>). An array element is therefore a
  \<^typ>\<open>'a option\<close>, with \<open>None\<close> for \<^verbatim>\<open>undefined\<close>/\<^verbatim>\<open>null\<close>.
\<close>

record Task =
  task_text :: string
  task_notes :: string

record ScheduleBlock =
  block_id :: nat
  time :: string
  title :: string
  tasks :: "Task option list"

text \<open>The argument objects \<^verbatim>\<open>{ blockId, taskIndex }\<close> of \<^verbatim>\<open>handleReorderTasks\<close>.\<close>

record TaskRef =
  blockId :: nat
  taskIndex :: int

section \<open>JavaScript array primitives used by the store\<close>

text \<open>\<^verbatim>\<open>xs[i]\<close>: \<^verbatim>\<open>undefined\<close> (here \<open>None\<close>) outside \<open>0 .. length - 1\<close>.\<close>

definition js_index :: "'a list \<Rightarrow> int \<Rightarrow> 'a option" where
  "js_index xs i = (if 0 \<le> i \<and> i < int (length xs) then Some (xs ! nat i) else None)"

text \<open>
  \<^verbatim>\<open>xs.find(p)\<close> returns the first element satisfying \<open>p\<close>. The store then mutates
  the object found, which lives inside the copied array, so the model returns the
  position of that element.
\<close>

fun find_pos :: "('a \<Rightarrow> bool) \<Rightarrow> 'a list \<Rightarrow> nat option" where
  "find_pos p [] = None"
| "find_pos p (x # xs) =
     (if p x then Some 0 else (case find_pos p xs of None \<Rightarrow> None | Some i \<Rightarrow> Some (Suc i)))"

text \<open>
  \<^verbatim>\<open>xs.filter((x, index) => p(index, x))\<close>: the callback sees the position in the
  array being filtered (the position before filtering). \<open>filter_from k\<close> is the loop
  with its running index \<open>k\<close>.
\<close>

fun filter_from :: "nat \<Rightarrow> (nat \<Rightarrow> 'a \<Rightarrow> bool) \<Rightarrow> 'a list \<Rightarrow> 'a list" where
  "filter_from k p [] = []"
| "filter_from k p (x # xs) =
     (if p k x then x # filter_from (Suc k) p xs else filter_from (Suc k) p xs)"

definition filter_indexed :: "(nat \<Rightarrow> 'a \<Rightarrow> bool) \<Rightarrow> 'a list \<Rightarrow> 'a list" where
  "filter_indexed p xs = filter_from 0 p xs"

text \<open>
  \<^verbatim>\<open>xs.splice(start, deleteCount, ...items)\<close>. The actual start is
  \<open>max (len + start) 0\<close> for a negative \<open>start\<close> and \<open>min start len\<close> otherwise.
  \<open>splice_remove1\<close> is \<^verbatim>\<open>splice(start, 1)\<close>: it returns the removed elements (at most
  one) and the array that is left. \<open>splice_insert\<close> is \<^verbatim>\<open>splice(start, 0, x)\<close>.
\<close>

definition splice_start :: "int \<Rightarrow> nat \<Rightarrow> nat" where
  "splice_start start len =
     (if start < 0 then nat (max (int len + start) 0) else min (nat start) len)"

definition splice_remove1 :: "'a list \<Rightarrow> int \<Rightarrow> 'a list \<times> 'a list" where
  "splice_remove1 xs start =
     (let s = splice_start start (length xs)
      in (take 1 (drop s xs), take s xs @ drop (Suc s) xs))"

definition splice_insert :: "'a list \<Rightarrow> int \<Rightarrow> 'a \<Rightarrow> 'a list" where
  "splice_insert xs start x =
     (let s = splice_start start (length xs) in take s xs @ x # drop s xs)"

text \<open>
  \<^verbatim>\<open>JSON.parse(JSON.stringify(schedule))\<close>: a deep copy. On a schedule (numbers that
  are array positions, strings, arrays, plain objects) it returns an equal value in
  fresh objects; an \<^verbatim>\<open>undefined\<close> array element becomes \<^verbatim>\<open>null\<close>, and both are \<open>None\<close>
  here.
\<close>

definition json_copy :: "ScheduleBlock list \<Rightarrow> ScheduleBlock list" where
  "json_copy s = s"

text \<open>Number to string for a non-negative integer below \<open>10^21\<close>: its decimal digits.\<close>

fun show_nat :: "nat \<Rightarrow> string" where
  "show_nat n =
     (if n < 10 then [''0123456789'' ! n]
      else show_nat (n div 10) @ [''0123456789'' ! (n mod 10)])"

section \<open>Schedule store (App.tsx)\<close>

text \<open>
  Each handler calls \<^verbatim>\<open>setSchedule(currentSchedule => ...)\<close>; the model of a handler is
  that updater function, from the current schedule (\<open>None\<close> for \<^verbatim>\<open>null\<close>) to the next.
\<close>

definition handleUpdateTaskText ::
  "nat \<Rightarrow> int \<Rightarrow> string \<Rightarrow> ScheduleBlock list option \<Rightarrow> ScheduleBlock list option" where
  "handleUpdateTaskText bid taskIdx newText currentSchedule =
     (case currentSchedule of
        None \<Rightarrow> None
      | Some cur \<Rightarrow>
          (let newSchedule = json_copy cur in
           case find_pos (\<lambda>block. block_id block = bid) newSchedule of
             None \<Rightarrow> Some newSchedule
           | Some i \<Rightarrow>
               (let blockToUpdate = newSchedule ! i in
                case js_index (tasks blockToUpdate) taskIdx of
                  Some (Some t) \<Rightarrow>
                    Some (newSchedule[i := blockToUpdate
                      \<lparr>tasks := (tasks blockToUpdate)[nat taskIdx := Some (t\<lparr>task_text := newText\<rparr>)]\<rparr>])
                | _ \<Rightarrow> Some newSchedule)))"

definition handleUpdateTaskNotes ::
  "nat \<Rightarrow> int \<Rightarrow> string \<Rightarrow> ScheduleBlock list option \<Rightarrow> ScheduleBlock list option" where
  "handleUpdateTaskNotes bid taskIdx newNotes currentSchedule =
     (case currentSchedule of
        None \<Rightarrow> None
      | Some cur \<Rightarrow>
          (let newSchedule = json_copy cur in
           case find_pos (\<lambda>block. block_id block = bid) newSchedule of
             None \<Rightarrow> Some newSchedule
           | Some i \<Rightarrow>
               (let blockToUpdate = newSchedule ! i in
                case js_index (tasks blockToUpdate) taskIdx of
                  Some (Some t) \<Rightarrow>
                    Some (newSchedule[i := blockToUpdate
                      \<lparr>tasks := (tasks blockToUpdate)[nat taskIdx := Some (t\<lparr>task_notes := newNotes\<rparr>)]\<rparr>])
                | _ \<Rightarrow> Some newSchedule)))"

definition handleDeleteTask ::
  "nat \<Rightarrow> int \<Rightarrow> ScheduleBlock list option \<Rightarrow> ScheduleBlock list option" where
  "handleDeleteTask bid taskIdx currentSchedule =
     (case currentSchedule of
        None \<Rightarrow> None
      | Some cur \<Rightarrow>
          Some (map (\<lambda>block.
                  if block_id block = bid
                  then block\<lparr>tasks := filter_indexed (\<lambda>index _. int index \<noteq> taskIdx) (tasks block)\<rparr>
                  else block) cur))"

text \<open>
  \<^verbatim>\<open>handleReorderTasks\<close>: both blocks are looked up in the copy. \<^verbatim>\<open>sourceBlock\<close> and
  \<^verbatim>\<open>destinationBlock\<close> are the same object when both ids find the same position, so
  the insertion reads the array the removal has already changed. \<^verbatim>\<open>removedTask\<close> is
  the first element of the array \<^verbatim>\<open>splice\<close> returned, \<^verbatim>\<open>undefined\<close> when it is empty.
\<close>

definition handleReorderTasks ::
  "TaskRef \<Rightarrow> TaskRef \<Rightarrow> ScheduleBlock list option \<Rightarrow> ScheduleBlock list option" where
  "handleReorderTasks source destination currentSchedule =
     (case currentSchedule of
        None \<Rightarrow> None
      | Some cur \<Rightarrow>
          (let newSchedule = json_copy cur in
           case find_pos (\<lambda>b. block_id b = blockId source) newSchedule of
             None \<Rightarrow> Some cur
           | Some si \<Rightarrow>
               (case find_pos (\<lambda>b. block_id b = blockId destination) newSchedule of
                  None \<Rightarrow> Some cur
                | Some di \<Rightarrow>
                    (let sourceBlock = newSchedule ! si;
                         (removed, rest) = splice_remove1 (tasks sourceBlock) (taskIndex source);
                         removedTask = (case removed of [] \<Rightarrow> None | t # _ \<Rightarrow> t);
                         s1 = newSchedule[si := sourceBlock\<lparr>tasks := rest\<rparr>];
                         destinationBlock = s1 ! di
                     in Some (s1[di := destinationBlock
                          \<lparr>tasks := splice_insert (tasks destinationBlock)
                                      (taskIndex destination) removedTask\<rparr>])))))"

text \<open>
  \<^verbatim>\<open>completedTasks\<close> is a \<^verbatim>\<open>Record<string, boolean>\<close>, a map from the composite key
  \<^verbatim>\<open>`${block.id}-${taskIndex}`\<close> to a flag; \<^verbatim>\<open>!completedTasks[taskId]\<close> is true for an
  absent key and for \<^verbatim>\<open>false\<close>.
\<close>

definition taskId :: "nat \<Rightarrow> nat \<Rightarrow> string" where
  "taskId bid taskIdx = show_nat bid @ ''-'' @ show_nat taskIdx"

definition handleClearCompletedTasks ::
  "(string \<rightharpoonup> bool) \<Rightarrow> ScheduleBlock list option \<Rightarrow> ScheduleBlock list option" where
  "handleClearCompletedTasks completedTasks currentSchedule =
     (case currentSchedule of
        None \<Rightarrow> None
      | Some cur \<Rightarrow>
          Some (map (\<lambda>block.
                  block\<lparr>tasks := filter_indexed
                    (\<lambda>taskIdx _. completedTasks (taskId (block_id block) taskIdx) \<noteq> Some True)
                    (tasks block)\<rparr>) cur))"

text \<open>
  \<^verbatim>\<open>handleToggleTask\<close>, as the function from the completion map to the next one: the
  key is set to the negation of its current truth value.
\<close>

definition handleToggleTask :: "nat \<Rightarrow> nat \<Rightarrow> (string \<rightharpoonup> bool) \<Rightarrow> (string \<rightharpoonup> bool)" where
  "handleToggleTask bid taskIdx completedTasks =
     (let isNowCompleted = (completedTasks (taskId bid taskIdx) \<noteq> Some True)
      in completedTasks(taskId bid taskIdx \<mapsto> isNowCompleted))"

section \<open>JavaScript string primitives used by the parser\<close>

text \<open>
  \<open>isSpace\<close> is the class \<^verbatim>\<open>\s\<close> of regular expressions and the set \<^verbatim>\<open>trim()\<close> strips:
  WhiteSpace and LineTerminator of ECMAScript, here the seven of them below 256
  (TAB, LF, VT, FF, CR, SP, NBSP). \<open>isLineTerminator\<close> holds of the characters
  that \<^verbatim>\<open>.\<close> does not match (LF and CR below 256).
\<close>

definition isSpace :: "char \<Rightarrow> bool" where
  "isSpace c = (c \<in> {CHR 0x09, CHR 0x0A, CHR 0x0B, CHR 0x0C, CHR 0x0D, CHR 0x20, CHR 0xA0})"

definition isLineTerminator :: "char \<Rightarrow> bool" where
  "isLineTerminator c = (c \<in> {CHR 0x0A, CHR 0x0D})"

definition isDigit :: "char \<Rightarrow> bool" where
  "isDigit c = (c \<in> set ''0123456789'')"

definition trim :: "string \<Rightarrow> string" where
  "trim s = rev (dropWhile isSpace (rev (dropWhile isSpace s)))"

text \<open>
  \<^verbatim>\<open>s.split(sep)\<close> for a string separator: the pieces between the successive leftmost
  occurrences of \<open>sep\<close>; always at least one piece. \<open>split_aux sep cur s\<close> scans \<open>s\<close>
  with the current piece \<open>cur\<close> (reversed). An empty separator splits into single
  code units.
\<close>

function split_aux :: "string \<Rightarrow> string \<Rightarrow> string \<Rightarrow> string list" where
  "split_aux sep cur [] = [rev cur]"
| "split_aux sep cur (c # cs) =
     (if sep \<noteq> [] \<and> take (length sep) (c # cs) = sep
      then rev cur # split_aux sep [] (drop (length sep) (c # cs))
      else split_aux sep (c # cur) cs)"
  by pat_completeness auto
termination
  by (relation "measure (\<lambda>(sep, cur, s). length s)") auto

definition split :: "string \<Rightarrow> string \<Rightarrow> string list" where
  "split s sep = (if sep = [] then map (\<lambda>c. [c]) s else split_aux sep [] s)"

text \<open>\<^verbatim>\<open>parts.join(sep)\<close>.\<close>

fun join :: "string \<Rightarrow> string list \<Rightarrow> string" where
  "join sep [] = []"
| "join sep [p] = p"
| "join sep (p # q # ps) = p @ sep @ join sep (q # ps)"

text \<open>
  \<^verbatim>\<open>xs.map((x, index) => f(index, x))\<close> where the callback may throw: the first
  exception ends the loop and is the result. An exception is a TypeError, another
  instance of \<^verbatim>\<open>Error\<close> with its message, or a value that is no \<^verbatim>\<open>Error\<close>.
\<close>

datatype exn = TypeError | Error string | NonError

fun map_from :: "nat \<Rightarrow> (nat \<Rightarrow> 'a \<Rightarrow> exn + 'b) \<Rightarrow> 'a list \<Rightarrow> exn + 'b list" where
  "map_from k f [] = Inr []"
| "map_from k f (x # xs) =
     (case f k x of
        Inl e \<Rightarrow> Inl e
      | Inr y \<Rightarrow> (case map_from (Suc k) f xs of Inl e \<Rightarrow> Inl e | Inr ys \<Rightarrow> Inr (y # ys)))"

definition map_indexed :: "(nat \<Rightarrow> 'a \<Rightarrow> exn + 'b) \<Rightarrow> 'a list \<Rightarrow> exn + 'b list" where
  "map_indexed f xs = map_from 0 f xs"

section \<open>Schedule parser (parsePlannerContent)\<close>

text \<open>
  The regular expression \<^verbatim>\<open>/(.*(?:AM|PM))\s*:\s*(.*)/\<close>, as the backtracking matcher
  runs it.

  \<open>title_tail\<close> is the part after group 1, \<^verbatim>\<open>\s*:\s*(.*)\<close>: the greedy \<^verbatim>\<open>\s*\<close> takes
  every white space character, the next character must be the colon (giving white
  space back cannot help: the character after a shorter run is white space), then
  again all white space, then group 2 takes every character up to the next line
  terminator.

  \<open>time_title_at\<close> is one attempt at a start position. The greedy \<^verbatim>\<open>.*\<close> first takes
  the next character \<open>c\<close> (unless it is a line terminator) and the rest of the attempt
  runs on \<open>cs\<close>; only when that fails it stops here, where \<^verbatim>\<open>AM\<close> or \<^verbatim>\<open>PM\<close> and the tail
  must follow. The result is (group 1, group 2).

  \<open>time_title_match\<close> is \<^verbatim>\<open>timeAndTitle.match(...)\<close>: the attempt at the first start
  position where one succeeds, \<open>None\<close> for \<^verbatim>\<open>null\<close>.
\<close>

definition title_tail :: "string \<Rightarrow> string option" where
  "title_tail s =
     (case dropWhile isSpace s of
        [] \<Rightarrow> None
      | c # r \<Rightarrow>
          if c = CHR '':''
          then Some (takeWhile (\<lambda>d. \<not> isLineTerminator d) (dropWhile isSpace r))
          else None)"

fun time_title_at :: "string \<Rightarrow> (string \<times> string) option" where
  "time_title_at [] = None"
| "time_title_at (c # cs) =
     (case (if isLineTerminator c then None else time_title_at cs) of
        Some (g1, g2) \<Rightarrow> Some (c # g1, g2)
      | None \<Rightarrow>
          if take 2 (c # cs) = ''AM'' \<or> take 2 (c # cs) = ''PM''
          then (case title_tail (drop 2 (c # cs)) of
                  Some g2 \<Rightarrow> Some (take 2 (c # cs), g2)
                | None \<Rightarrow> None)
          else None)"

fun time_title_match :: "string \<Rightarrow> (string \<times> string) option" where
  "time_title_match [] = None"
| "time_title_match (c # cs) =
     (case time_title_at (c # cs) of
        Some m \<Rightarrow> Some m
      | None \<Rightarrow> time_title_match cs)"

text \<open>\<^verbatim>\<open>line.replace(/^[*\-]\s*/, '')\<close>: one bullet at the start and the white space after it.\<close>

definition strip_bullet :: "string \<Rightarrow> string" where
  "strip_bullet line =
     (case line of
        [] \<Rightarrow> []
      | c # r \<Rightarrow> if c = CHR ''*'' \<or> c = CHR ''-'' then dropWhile isSpace r else line)"

text \<open>
  The callback of \<^verbatim>\<open>blocks.map((block, index) => ...)\<close>. \<^verbatim>\<open>lines[0]\<close> is \<^verbatim>\<open>undefined\<close>
  for an empty array, and \<^verbatim>\<open>timeAndTitle.match\<close> would then throw a TypeError: that
  is the \<open>Inl\<close> branch. \<^verbatim>\<open>parts.shift()?.trim() || ''\<close> is guarded in the source and
  gives the empty string for an empty array.
\<close>

definition parse_block :: "nat \<Rightarrow> string \<Rightarrow> exn + ScheduleBlock" where
  "parse_block index block =
     (case split (trim block) ''\<newline>'' of
        [] \<Rightarrow> Inl TypeError
      | timeAndTitle # taskLines \<Rightarrow>
          (let fallback =
                 (case split timeAndTitle '':'' of
                    [] \<Rightarrow> ('''', trim (join '':'' []))
                  | p # parts \<Rightarrow> (trim p, trim (join '':'' parts)));
               (time_str, title_str) =
                 (case time_title_match timeAndTitle of
                    None \<Rightarrow> fallback
                  | Some (m1, m2) \<Rightarrow>
                      if m1 \<noteq> [] \<and> m2 \<noteq> [] then (trim m1, trim m2) else fallback);
               task_list =
                 map (\<lambda>taskText. Some \<lparr>task_text = taskText, task_notes = ''''\<rparr>)
                   (filter (\<lambda>taskText. taskText \<noteq> '''')
                     (map (\<lambda>line. trim (strip_bullet line)) taskLines))
           in Inr \<lparr>block_id = index, time = time_str, title = title_str, tasks = task_list\<rparr>))"

definition parsePlannerContent :: "string \<Rightarrow> exn + ScheduleBlock list" where
  "parsePlannerContent content =
     (if content = [] then Inr []
      else map_indexed parse_block
             (filter (\<lambda>block. trim block \<noteq> '''' \<and> CHR '':'' \<in> set block) (split content ''**'')))"

section \<open>Time utilities (parseTime)\<close>

text \<open>
  The regular expression \<^verbatim>\<open>/(\d{1,2}):(\d{2})\s*(AM|PM)/i\<close>. With the flag \<^verbatim>\<open>i\<close> the
  letters match in either case; no other character is equal to an ASCII letter
  under the case folding of a non-Unicode pattern.

  \<open>time_rest\<close> is the part after the hours, \<^verbatim>\<open>:(\d{2})\s*(AM|PM)\<close>, returning the
  groups (minutes, period). \<open>time_at\<close> is one attempt at a start position: the greedy
  \<^verbatim>\<open>\d{1,2}\<close> first tries two digits, and one digit when the rest fails after two.
  \<open>time_match\<close> is \<^verbatim>\<open>match\<close>: the first start position with a successful attempt.
\<close>

definition period_at :: "string \<Rightarrow> string option" where
  "period_at s =
     (case s of
        a # b # _ \<Rightarrow>
          if (a \<in> {CHR ''A'', CHR ''a''} \<or> a \<in> {CHR ''P'', CHR ''p''}) \<and> b \<in> {CHR ''M'', CHR ''m''}
          then Some [a, b] else None
      | _ \<Rightarrow> None)"

definition time_rest :: "string \<Rightarrow> (string \<times> string) option" where
  "time_rest s =
     (case s of
        c # m1 # m2 # r \<Rightarrow>
          if c = CHR '':'' \<and> isDigit m1 \<and> isDigit m2
          then (case period_at (dropWhile isSpace r) of
                  Some p \<Rightarrow> Some ([m1, m2], p)
                | None \<Rightarrow> None)
          else None
      | _ \<Rightarrow> None)"

definition time_at :: "string \<Rightarrow> (string \<times> string \<times> string) option" where
  "time_at s =
     (case s of
        [] \<Rightarrow> None
      | d1 # r1 \<Rightarrow>
          if isDigit d1
          then (let one_digit =
                      (case time_rest r1 of
                         Some (m, p) \<Rightarrow> Some ([d1], m, p)
                       | None \<Rightarrow> None)
                in case r1 of
                     [] \<Rightarrow> one_digit
                   | d2 # r2 \<Rightarrow>
                       if isDigit d2
                       then (case time_rest r2 of
                               Some (m, p) \<Rightarrow> Some ([d1, d2], m, p)
                             | None \<Rightarrow> one_digit)
                       else one_digit)
          else None)"

fun time_match :: "string \<Rightarrow> (string \<times> string \<times> string) option" where
  "time_match [] = None"
| "time_match (c # cs) =
     (case time_at (c # cs) of
        Some m \<Rightarrow> Some m
      | None \<Rightarrow> time_match cs)"

text \<open>\<^verbatim>\<open>parseInt(s, 10)\<close> on a string of decimal digits (all it is applied to).\<close>

definition digit_val :: "char \<Rightarrow> nat" where
  "digit_val c = of_char c - 48"

definition parseInt :: "string \<Rightarrow> nat" where
  "parseInt s = foldl (\<lambda>n c. 10 * n + digit_val c) 0 s"

text \<open>\<^verbatim>\<open>toUpperCase()\<close> on ASCII letters (it is applied to the period group only).\<close>

definition toUpperCase :: "string \<Rightarrow> string" where
  "toUpperCase s =
     map (\<lambda>c. case map_of (zip ''abcdefghijklmnopqrstuvwxyz'' ''ABCDEFGHIJKLMNOPQRSTUVWXYZ'') c of
                 Some u \<Rightarrow> u | None \<Rightarrow> c) s"

text \<open>
  A \<^verbatim>\<open>Date\<close> is modelled by its distance in milliseconds from the local midnight
  that starts the current day, on a day without a clock change. \<open>setHours h m\<close> is
  \<^verbatim>\<open>date.setHours(h, m, 0, 0)\<close> on \<^verbatim>\<open>new Date()\<close>; hours above 23 and minutes above 59
  carry over, as they do in JavaScript. \<open>getHours\<close> reads the hour of the day back.
\<close>

type_synonym Date = int

definition setHours :: "nat \<Rightarrow> nat \<Rightarrow> Date" where
  "setHours h m = int h * 3600000 + int m * 60000"

definition getHours :: "Date \<Rightarrow> int" where
  "getHours d = (d div 3600000) mod 24"

definition parseTime :: "string \<Rightarrow> Date option" where
  "parseTime timeStr =
     (if timeStr = [] then None
      else case time_match (trim timeStr) of
        None \<Rightarrow> None
      | Some (hours, minutes, period) \<Rightarrow>
          (let h = parseInt hours;
               h1 = (if toUpperCase period = ''PM'' \<and> h < 12 then h + 12 else h);
               h2 = (if toUpperCase period = ''AM'' \<and> h1 = 12 then 0 else h1)
           in Some (setHours h2 (parseInt minutes))))"

section \<open>Generation (geminiService.ts, App.tsx)\<close>

text \<open>
  \<^verbatim>\<open>generatePlannerSchedule\<close> awaits the external model and rethrows every failure as
  one \<^verbatim>\<open>Error\<close> with a fixed message. The outcome of the external call is the
  parameter: \<open>None\<close> when it threw, \<open>Some text\<close> for \<^verbatim>\<open>response.text\<close>.
\<close>

definition generatePlannerSchedule :: "string option \<Rightarrow> exn + string" where
  "generatePlannerSchedule response =
     (case response of
        None \<Rightarrow>
          Inl (Error ''Failed to generate schedule from AI. Please check your API key and try again.'')
      | Some response_text \<Rightarrow> Inr response_text)"

text \<open>
  The state of \<^verbatim>\<open>App\<close> that the store and the generation touch: \<^verbatim>\<open>schedule\<close>
  (\<open>None\<close> for \<^verbatim>\<open>null\<close>), \<^verbatim>\<open>isLoading\<close>, \<^verbatim>\<open>error\<close> and \<^verbatim>\<open>completedTasks\<close>.
\<close>

record AppState =
  schedule :: "ScheduleBlock list option"
  isLoading :: bool
  error :: "string option"
  completedTasks :: "string \<rightharpoonup> bool"

text \<open>
  The \<^verbatim>\<open>catch\<close> and \<^verbatim>\<open>finally\<close> blocks of \<^verbatim>\<open>handleGenerate\<close>: the message of an
  \<^verbatim>\<open>Error\<close> instance (a TypeError carries the engine's text), a fixed message for any
  other thrown value.
\<close>

definition catch_generate :: "exn \<Rightarrow> AppState \<Rightarrow> AppState" where
  "catch_generate e s =
     s\<lparr>error := Some (case e of
                       Error msg \<Rightarrow> msg
                     | TypeError \<Rightarrow> ''Cannot read properties of undefined''
                     | NonError \<Rightarrow> ''An unknown error occurred.''),
       isLoading := False\<rparr>"

text \<open>
  \<^verbatim>\<open>handleGenerate\<close>, from the state before the click to the state after the
  promise settled. The four state setters before \<^verbatim>\<open>try\<close> run first (\<open>cleared\<close>), then
  the awaited call and the parser; sound and speech are left out.
\<close>

definition handleGenerate :: "string option \<Rightarrow> AppState \<Rightarrow> AppState" where
  "handleGenerate response s =
     (let cleared = s\<lparr>isLoading := True, error := None, schedule := None,
                       completedTasks := Map.empty\<rparr>
      in case generatePlannerSchedule response of
           Inl e \<Rightarrow> catch_generate e cleared
         | Inr generatedContent \<Rightarrow>
             (case parsePlannerContent generatedContent of
                Inl e \<Rightarrow> catch_generate e cleared
              | Inr parsedSchedule \<Rightarrow>
                  cleared\<lparr>schedule := Some parsedSchedule, isLoading := False\<rparr>))"

section \<open>Reminder scheduler (PlannerDisplay.tsx)\<close>

text \<open>
  The callback of \<^verbatim>\<open>blocks.forEach\<close> inside the interval: \<open>block_due\<close> holds when the
  callback reaches \<^verbatim>\<open>onNotify()\<close> and \<^verbatim>\<open>new Notification(...)\<close> for the block. \<open>now\<close>
  is a \<open>Date\<close> on the same day as the one \<open>parseTime\<close> builds; \<open>notified\<close> is the
  set \<^verbatim>\<open>notifiedBlockIds\<close> the interval's closure holds. \<^verbatim>\<open>split('-')[0]\<close> of an
  empty array would be \<^verbatim>\<open>undefined\<close>, which \<open>parseTime\<close> answers with \<^verbatim>\<open>null\<close>.
\<close>

definition block_due :: "int \<Rightarrow> Date \<Rightarrow> nat set \<Rightarrow> ScheduleBlock \<Rightarrow> bool" where
  "block_due reminder now notified block =
     (case (case split (time block) ''-'' of
              [] \<Rightarrow> None
            | timePart # _ \<Rightarrow> parseTime timePart) of
        None \<Rightarrow> False
      | Some startTime \<Rightarrow>
          block_id block \<notin> notified \<and>
          (let notificationTime = startTime - reminder * 60 * 1000
           in notificationTime \<le> now \<and> now < startTime))"

text \<open>
  The state of the planner view: the props \<^verbatim>\<open>blocks\<close>, \<^verbatim>\<open>completedTasks\<close> (here
  \<open>completed\<close>) and \<^verbatim>\<open>reminderTime\<close> (minutes), \<^verbatim>\<open>Notification.permission\<close>, and the
  state \<^verbatim>\<open>notifiedBlockIds\<close>.
\<close>

datatype permission = Default | Granted | Denied

record PlannerDisplay =
  blocks :: "ScheduleBlock list"
  completed :: "string \<rightharpoonup> bool"
  reminderTime :: int
  notification_permission :: permission
  notifiedBlockIds :: "nat set"

text \<open>
  One run of the interval callback at time \<open>now\<close>. No interval exists when the
  reminder is off, permission is not granted or there is no block. Every block is
  tested against the set of the closure; each notification adds the block's id to
  the state, and the interval is set up again with the new set before it runs next.
  The result is the list of blocks a notification was raised for, and the new
  state.
\<close>

definition tick :: "Date \<Rightarrow> PlannerDisplay \<Rightarrow> ScheduleBlock list \<times> PlannerDisplay" where
  "tick now pd =
     (if reminderTime pd = 0 \<or> notification_permission pd \<noteq> Granted \<or> blocks pd = []
      then ([], pd)
      else (let fired = filter (block_due (reminderTime pd) now (notifiedBlockIds pd)) (blocks pd)
            in (fired, pd\<lparr>notifiedBlockIds := notifiedBlockIds pd \<union> set (map block_id fired)\<rparr>)))"

text \<open>
  The effect \<^verbatim>\<open>useEffect(() => { setNotifiedBlockIds(new Set()); }, [blocks])\<close> runs
  whenever the prop \<^verbatim>\<open>blocks\<close> is a different array object than at the last render.
  \<open>blocks_prop new fresh\<close> is a render with the schedule \<open>new\<close>; \<open>fresh\<close> tells
  whether \<open>new\<close> is another array object than the previous prop.
\<close>

definition blocks_prop :: "ScheduleBlock list \<Rightarrow> bool \<Rightarrow> PlannerDisplay \<Rightarrow> PlannerDisplay" where
  "blocks_prop new fresh pd =
     pd\<lparr>blocks := new, notifiedBlockIds := (if fresh then {} else notifiedBlockIds pd)\<rparr>"

text \<open>
  The events of one mounted planner view between two generations: a run of the
  interval callback, the five store operations the view triggers, and the toggle
  of a task. A store operation replaces \<^verbatim>\<open>schedule\<close> in \<^verbatim>\<open>App\<close> by what the updater
  returns, and the view is rendered with it. The updaters of
  \<^verbatim>\<open>handleUpdateTaskText\<close>, \<^verbatim>\<open>handleUpdateTaskNotes\<close> (the JSON copy), \<^verbatim>\<open>handleDeleteTask\<close>
  and \<^verbatim>\<open>handleClearCompletedTasks\<close> (\<^verbatim>\<open>map\<close>) always return a new array;
  \<^verbatim>\<open>handleReorderTasks\<close> returns \<^verbatim>\<open>currentSchedule\<close> itself when a block is not found
  and the copy otherwise. \<^verbatim>\<open>handleClearCompletedTasks\<close> also empties the completion
  map; \<^verbatim>\<open>handleToggleTask\<close> changes the completion map only. \<open>run_event\<close> returns the
  notifications raised and the next state.
\<close>

datatype event =
    Tick Date
  | UpdateTaskText nat int string
  | UpdateTaskNotes nat int string
  | DeleteTask nat int
  | ReorderTasks TaskRef TaskRef
  | ClearCompletedTasks
  | ToggleTask nat nat

definition store_result :: "ScheduleBlock list option \<Rightarrow> ScheduleBlock list" where
  "store_result r = (case r of None \<Rightarrow> [] | Some s \<Rightarrow> s)"

definition reorder_found :: "TaskRef \<Rightarrow> TaskRef \<Rightarrow> ScheduleBlock list \<Rightarrow> bool" where
  "reorder_found source destination cur =
     (find_pos (\<lambda>b. block_id b = blockId source) (json_copy cur) \<noteq> None \<and>
      find_pos (\<lambda>b. block_id b = blockId destination) (json_copy cur) \<noteq> None)"

fun run_event :: "event \<Rightarrow> PlannerDisplay \<Rightarrow> ScheduleBlock list \<times> PlannerDisplay" where
  "run_event (Tick now) pd = tick now pd"
| "run_event (UpdateTaskText bid i newText) pd =
     ([], blocks_prop (store_result (handleUpdateTaskText bid i newText (Some (blocks pd)))) True pd)"
| "run_event (UpdateTaskNotes bid i newNotes) pd =
     ([], blocks_prop (store_result (handleUpdateTaskNotes bid i newNotes (Some (blocks pd)))) True pd)"
| "run_event (DeleteTask bid i) pd =
     ([], blocks_prop (store_result (handleDeleteTask bid i (Some (blocks pd)))) True pd)"
| "run_event (ReorderTasks source destination) pd =
     ([], blocks_prop (store_result (handleReorderTasks source destination (Some (blocks pd))))
            (reorder_found source destination (blocks pd)) pd)"
| "run_event ClearCompletedTasks pd =
     ([], (blocks_prop (store_result (handleClearCompletedTasks (completed pd) (Some (blocks pd))))
             True pd)\<lparr>completed := Map.empty\<rparr>)"
| "run_event (ToggleTask bid i) pd =
     ([], pd\<lparr>completed := handleToggleTask bid i (completed pd)\<rparr>)"

text \<open>A sequence of events, collecting every notification raised, in order.\<close>

fun run_events :: "event list \<Rightarrow> PlannerDisplay \<Rightarrow> ScheduleBlock list \<times> PlannerDisplay" where
  "run_events [] pd = ([], pd)"
| "run_events (e # es) pd =
     (let (fired, pd1) = run_event e pd;
          (later, pd2) = run_events es pd1
      in (fired @ later, pd2))"

section \<open>Notions used to state the properties\<close>

text \<open>The total number of task entries of a schedule.\<close>

definition task_count :: "ScheduleBlock list \<Rightarrow> nat" where
  "task_count s = sum_list (map (\<lambda>b. length (tasks b)) s)"

text \<open>Concrete tasks and blocks for the examples.\<close>

definition ex_task_a :: Task where
  "ex_task_a = \<lparr>task_text = ''Eat breakfast'', task_notes = ''''\<rparr>"

definition ex_task_b :: Task where
  "ex_task_b = \<lparr>task_text = ''Write report'', task_notes = ''''\<rparr>"

definition ex_task_c :: Task where
  "ex_task_c = \<lparr>task_text = ''Call school'', task_notes = ''''\<rparr>"

definition ex_block :: "nat \<Rightarrow> Task option list \<Rightarrow> ScheduleBlock" where
  "ex_block n ts = \<lparr>block_id = n, time = ''8:00 AM - 9:00 AM'', title = ''Work'', tasks = ts\<rparr>"

text \<open>
  The pattern of \<open>parseTime\<close> stated as a set of strings, to compare with the
  matcher above: a time token is one or two digits, a colon, two digits, any
  number of white space characters, and \<^verbatim>\<open>AM\<close> or \<^verbatim>\<open>PM\<close> in either case.
  \<open>contains_time s\<close> holds when some substring of \<open>s\<close> is a time token.
\<close>

definition period_strings :: "string set" where
  "period_strings = {''AM'', ''Am'', ''aM'', ''am'', ''PM'', ''Pm'', ''pM'', ''pm''}"

definition time_token :: "string \<Rightarrow> bool" where
  "time_token w =
     (\<exists>h m ws p. w = h @ '':'' @ m @ ws @ p \<and>
        (length h = 1 \<or> length h = 2) \<and> list_all isDigit h \<and>
        length m = 2 \<and> list_all isDigit m \<and>
        list_all isSpace ws \<and> p \<in> period_strings)"

definition contains_time :: "string \<Rightarrow> bool" where
  "contains_time s = (\<exists>pre w post. s = pre @ w @ post \<and> time_token w)"

text \<open>
  An application state with a schedule and a completed task, and a planner view
  with one block from 8:00 AM, a reminder five minutes ahead and permission to
  notify.
\<close>

definition ex_app_state :: AppState where
  "ex_app_state =
     \<lparr>schedule = Some [ex_block 0 [Some ex_task_a]], isLoading = False, error = None,
      completedTasks = [''0-0'' \<mapsto> True]\<rparr>"

definition ex_display :: PlannerDisplay where
  "ex_display =
     \<lparr>blocks = [ex_block 0 [Some ex_task_b]], completed = Map.empty, reminderTime = 5,
      notification_permission = Granted, notifiedBlockIds = {}\<rparr>"

section \<open>Properties of the array primitives\<close>

lemma find_pos_Some: "find_pos p xs = Some i \<Longrightarrow> i < length xs \<and> p (xs ! i)"
  by (induction xs arbitrary: i) (auto split: if_splits option.splits)

lemma find_pos_None: "find_pos p xs = None \<longleftrightarrow> (\<forall>x \<in> set xs. \<not> p x)"
  by (induction xs) (auto split: option.splits)

lemma filter_from_zip:
  "filter_from k p xs = map fst (filter (\<lambda>(x, i). p i x) (zip xs [k..<k + length xs]))"
proof (induction xs arbitrary: k)
  case Nil
  then show ?case by simp
next
  case (Cons x xs)
  have "[k..<k + length (x # xs)] = k # [Suc k..<Suc k + length xs]"
    using upt_conv_Cons [of k "k + Suc (length xs)"] by simp
  then show ?case using Cons.IH [of "Suc k"] by simp
qed

lemma filter_indexed_nths:
  "filter_indexed (\<lambda>i _. q i) xs = nths xs {i. q i}"
  by (simp add: filter_indexed_def filter_from_zip nths_def case_prod_unfold)

lemma splice_start_le: "splice_start i n \<le> n"
  by (auto simp: splice_start_def)

lemma splice_insert_length: "length (splice_insert xs i x) = Suc (length xs)"
  by (simp add: splice_insert_def splice_start_def Let_def)

lemma splice_insert_at:
  "js_index (splice_insert xs i x) (int (splice_start i (length xs))) = Some x"
proof -
  define k where "k = splice_start i (length xs)"
  have k: "k \<le> length xs" by (simp add: k_def splice_start_le)
  then have "length (take k xs) = k" by simp
  then have "(take k xs @ x # drop k xs) ! k = x"
    by (metis nth_append_length)
  then show ?thesis
    using k by (simp add: splice_insert_def js_index_def Let_def k_def [symmetric])
qed

lemma task_count_update:
  "i < length s \<Longrightarrow>
   task_count (s[i := b]) + length (tasks (s ! i)) = task_count s + length (tasks b)"
proof (induction s arbitrary: i)
  case Nil
  then show ?case by simp
next
  case (Cons a s)
  then show ?case
    by (cases i) (simp_all add: task_count_def)
qed

section \<open>Reordering tasks\<close>

lemma reorder_not_found:
  "find_pos (\<lambda>b. block_id b = blockId source) s = None \<or>
   find_pos (\<lambda>b. block_id b = blockId destination) s = None \<Longrightarrow>
   handleReorderTasks source destination (Some s) = Some s"
  by (auto simp: handleReorderTasks_def json_copy_def split: option.splits)

lemma reorder_move:
  assumes si: "find_pos (\<lambda>b. block_id b = 1) s = Some si"
    and di: "find_pos (\<lambda>b. block_id b = 2) s = Some di"
    and src: "tasks (s ! si) = e # rest"
  shows "handleReorderTasks \<lparr>blockId = 1, taskIndex = 0\<rparr> \<lparr>blockId = 2, taskIndex = 1\<rparr> (Some s) =
         Some (s[si := (s ! si)\<lparr>tasks := rest\<rparr>,
                 di := (s ! di)\<lparr>tasks := take 1 (tasks (s ! di)) @ e # drop 1 (tasks (s ! di))\<rparr>])"
proof -
  from si di have "si < length s" "di < length s" "block_id (s ! si) = 1" "block_id (s ! di) = 2"
    by (auto dest: find_pos_Some)
  then have ne: "si \<noteq> di" by auto
  have sp: "splice_insert (tasks (s ! di)) 1 e = take 1 (tasks (s ! di)) @ e # drop 1 (tasks (s ! di))"
    by (cases "tasks (s ! di)") (simp_all add: splice_insert_def splice_start_def)
  show ?thesis
    using si di src ne \<open>di < length s\<close> sp
    by (simp add: handleReorderTasks_def json_copy_def splice_remove1_def splice_start_def Let_def)
qed

text \<open>
  C5, as the code has it. \<^verbatim>\<open>reorderTask({blockId:1,taskIndex:0}, {blockId:2,taskIndex:1})\<close>
  on a schedule \<open>s\<close> where the first block with id 1 is at position \<open>si\<close>, the first
  block with id 2 at position \<open>di\<close>, and block 1 has an entry \<open>e\<close> at index 0 followed
  by \<open>rest\<close>: the result is \<open>s\<close> with \<open>e\<close> removed from block 1 and inserted into block 2
  after at most one entry. Block 1 keeps \<open>rest\<close>, block 2 has one entry more, \<open>e\<close>
  stands at position 1 of block 2 when block 2 had an entry and at position 0 when
  it was empty (position \<open>min 1 n\<close> for \<open>n\<close> entries), and the total number of entries is
  the same. When either block id is not found, the operation returns the schedule
  unchanged; on the absent schedule it returns the absent schedule.
\<close>

theorem reorder_moves_one_task:
  "(find_pos (\<lambda>b. block_id b = 1) s = Some si \<and> find_pos (\<lambda>b. block_id b = 2) s = Some di \<and>
    tasks (s ! si) = e # rest \<longrightarrow>
      (\<exists>s'. handleReorderTasks \<lparr>blockId = 1, taskIndex = 0\<rparr> \<lparr>blockId = 2, taskIndex = 1\<rparr> (Some s) = Some s' \<and>
            s' = s[si := (s ! si)\<lparr>tasks := rest\<rparr>,
                   di := (s ! di)\<lparr>tasks := take 1 (tasks (s ! di)) @ e # drop 1 (tasks (s ! di))\<rparr>] \<and>
            tasks (s' ! si) = rest \<and>
            length (tasks (s' ! di)) = length (tasks (s ! di)) + 1 \<and>
            js_index (tasks (s' ! di)) (int (min 1 (length (tasks (s ! di))))) = Some e \<and>
            task_count s' = task_count s)) \<and>
   (find_pos (\<lambda>b. block_id b = blockId source) s = None \<or>
    find_pos (\<lambda>b. block_id b = blockId destination) s = None \<longrightarrow>
      handleReorderTasks source destination (Some s) = Some s) \<and>
   handleReorderTasks source destination None = None"
proof (intro conjI impI)
  assume a: "find_pos (\<lambda>b. block_id b = 1) s = Some si \<and> find_pos (\<lambda>b. block_id b = 2) s = Some di \<and>
    tasks (s ! si) = e # rest"
  then have si: "si < length s" "block_id (s ! si) = 1" and di: "di < length s" "block_id (s ! di) = 2"
    by (auto dest: find_pos_Some)
  then have ne: "si \<noteq> di" by auto
  define mid where "mid = s[si := (s ! si)\<lparr>tasks := rest\<rparr>]"
  define new_tasks where "new_tasks = take 1 (tasks (s ! di)) @ e # drop 1 (tasks (s ! di))"
  define s' where "s' = mid[di := (s ! di)\<lparr>tasks := new_tasks\<rparr>]"
  have run: "handleReorderTasks \<lparr>blockId = 1, taskIndex = 0\<rparr> \<lparr>blockId = 2, taskIndex = 1\<rparr> (Some s) = Some s'"
    using a reorder_move [of s si di e rest] by (simp add: s'_def mid_def new_tasks_def)
  have src: "tasks (s' ! si) = rest"
    using si di ne by (simp add: s'_def mid_def)
  have dst: "tasks (s' ! di) = new_tasks"
    using di by (simp add: s'_def mid_def)
  have len: "length new_tasks = length (tasks (s ! di)) + 1"
    by (simp add: new_tasks_def)
  have at: "js_index new_tasks (int (min 1 (length (tasks (s ! di))))) = Some e"
    by (cases "tasks (s ! di)") (simp_all add: new_tasks_def js_index_def)
  have c1: "task_count mid + length (tasks (s ! si)) = task_count s + length rest"
    using si task_count_update [of si s "(s ! si)\<lparr>tasks := rest\<rparr>"] by (simp add: mid_def)
  have "mid ! di = s ! di" using ne by (simp add: mid_def)
  then have c2: "task_count s' + length (tasks (s ! di)) = task_count mid + length new_tasks"
    using di task_count_update [of di mid "(s ! di)\<lparr>tasks := new_tasks\<rparr>"] by (simp add: s'_def mid_def)
  have cnt: "task_count s' = task_count s"
    using c1 c2 len a by simp
  show "\<exists>s'. handleReorderTasks \<lparr>blockId = 1, taskIndex = 0\<rparr> \<lparr>blockId = 2, taskIndex = 1\<rparr> (Some s) = Some s' \<and>
            s' = s[si := (s ! si)\<lparr>tasks := rest\<rparr>,
                   di := (s ! di)\<lparr>tasks := take 1 (tasks (s ! di)) @ e # drop 1 (tasks (s ! di))\<rparr>] \<and>
            tasks (s' ! si) = rest \<and>
            length (tasks (s' ! di)) = length (tasks (s ! di)) + 1 \<and>
            js_index (tasks (s' ! di)) (int (min 1 (length (tasks (s ! di))))) = Some e \<and>
            task_count s' = task_count s"
    using run src dst len at cnt by (intro exI [of _ s']) (simp add: s'_def mid_def new_tasks_def)
next
  assume "find_pos (\<lambda>b. block_id b = blockId source) s = None \<or>
    find_pos (\<lambda>b. block_id b = blockId destination) s = None"
  then show "handleReorderTasks source destination (Some s) = Some s"
    by (rule reorder_not_found)
next
  show "handleReorderTasks source destination None = None"
    by (simp add: handleReorderTasks_def)
qed

text \<open>
  C5 as stated fails where block 2 is empty: both blocks exist and block 1 has a
  task at index 0, but after the operation the task stands at position 0 of block
  2 and position 1 holds nothing, since \<^verbatim>\<open>splice\<close> clamps the start to the length.
\<close>

theorem reorder_empty_destination_counterexample:
  "find_pos (\<lambda>b. block_id b = 1) [ex_block 1 [Some ex_task_a], ex_block 2 []] = Some 0 \<and>
   find_pos (\<lambda>b. block_id b = 2) [ex_block 1 [Some ex_task_a], ex_block 2 []] = Some 1 \<and>
   js_index (tasks ([ex_block 1 [Some ex_task_a], ex_block 2 []] ! 0)) 0 = Some (Some ex_task_a) \<and>
   handleReorderTasks \<lparr>blockId = 1, taskIndex = 0\<rparr> \<lparr>blockId = 2, taskIndex = 1\<rparr>
       (Some [ex_block 1 [Some ex_task_a], ex_block 2 []])
     = Some [ex_block 1 [], ex_block 2 [Some ex_task_a]] \<and>
   js_index (tasks (ex_block 2 [Some ex_task_a])) 1 = None \<and>
   js_index (tasks (ex_block 2 [Some ex_task_a])) 0 = Some (Some ex_task_a)"
  by (simp add: handleReorderTasks_def json_copy_def ex_block_def js_index_def
      splice_remove1_def splice_insert_def splice_start_def)

text \<open>
  The theorem of C5 at a schedule with blocks 1 and 2, block 2 holding two tasks,
  and at a destination id (7) that no block has.
\<close>

theorem reorder_moves_one_task_witness:
  "handleReorderTasks \<lparr>blockId = 1, taskIndex = 0\<rparr> \<lparr>blockId = 2, taskIndex = 1\<rparr>
       (Some [ex_block 1 [Some ex_task_a], ex_block 2 [Some ex_task_b, Some ex_task_c]])
     = Some [ex_block 1 [], ex_block 2 [Some ex_task_b, Some ex_task_a, Some ex_task_c]] \<and>
   task_count [ex_block 1 [], ex_block 2 [Some ex_task_b, Some ex_task_a, Some ex_task_c]] =
   task_count [ex_block 1 [Some ex_task_a], ex_block 2 [Some ex_task_b, Some ex_task_c]] \<and>
   handleReorderTasks \<lparr>blockId = 1, taskIndex = 0\<rparr> \<lparr>blockId = 7, taskIndex = 1\<rparr>
       (Some [ex_block 1 [Some ex_task_a], ex_block 2 [Some ex_task_b, Some ex_task_c]])
     = Some [ex_block 1 [Some ex_task_a], ex_block 2 [Some ex_task_b, Some ex_task_c]]"
proof -
  let ?s = "[ex_block 1 [Some ex_task_a], ex_block 2 [Some ex_task_b, Some ex_task_c]]"
  have h1: "find_pos (\<lambda>b. block_id b = 1) ?s = Some 0 \<and> find_pos (\<lambda>b. block_id b = 2) ?s = Some 1 \<and>
    tasks (?s ! 0) = Some ex_task_a # []"
    by (simp add: ex_block_def)
  have h2: "find_pos (\<lambda>b. block_id b = blockId \<lparr>blockId = 1, taskIndex = 0\<rparr>) ?s = None \<or>
    find_pos (\<lambda>b. block_id b = blockId \<lparr>blockId = 7, taskIndex = 1\<rparr>) ?s = None"
    by (simp add: ex_block_def)
  from reorder_moves_one_task [of ?s 0 1 "Some ex_task_a" "[]" "\<lparr>blockId = 1, taskIndex = 0\<rparr>" "\<lparr>blockId = 7, taskIndex = 1\<rparr>"] h1 h2
  show ?thesis by (simp add: ex_block_def)
qed

lemma splice_remove1_nothing:
  "int (length xs) \<le> i \<or> xs = [] \<Longrightarrow> splice_remove1 xs i = ([], xs)"
  by (auto simp: splice_remove1_def splice_start_def Let_def)

lemma splice_removes_nothing_iff:
  "fst (splice_remove1 xs i) = [] \<longleftrightarrow> int (length xs) \<le> i \<or> xs = []"
  by (cases xs) (auto simp: splice_remove1_def splice_start_def Let_def max_def min_def)

lemma splice_remove1_negative:
  assumes "i < 0" "xs \<noteq> []"
  shows "nat (max (int (length xs) + i) 0) < length xs \<and>
         splice_remove1 xs i =
           ([xs ! nat (max (int (length xs) + i) 0)],
            take (nat (max (int (length xs) + i) 0)) xs @
            drop (Suc (nat (max (int (length xs) + i) 0))) xs)"
proof -
  define k where "k = nat (max (int (length xs) + i) 0)"
  have k: "k < length xs"
    using assms by (auto simp: k_def max_def)
  have st: "splice_start i (length xs) = k"
    using assms(1) by (simp add: splice_start_def k_def)
  have "take 1 (drop k xs) = [xs ! k]"
    using k by (simp add: take_Suc_conv_app_nth [of 0] hd_drop_conv_nth take_Suc)
  then show ?thesis
    using k st by (simp add: splice_remove1_def Let_def k_def [symmetric])
qed

lemma reorder_nothing_removed:
  assumes si: "find_pos (\<lambda>b. block_id b = blockId source) s = Some si"
    and di: "find_pos (\<lambda>b. block_id b = blockId destination) s = Some di"
    and out: "int (length (tasks (s ! si))) \<le> taskIndex source \<or> tasks (s ! si) = []"
  shows "handleReorderTasks source destination (Some s) =
         Some (s[di := (s ! di)\<lparr>tasks := splice_insert (tasks (s ! di)) (taskIndex destination) None\<rparr>])"
proof -
  have "s[si := (s ! si)\<lparr>tasks := tasks (s ! si)\<rparr>] = s"
    by simp
  then show ?thesis
    using si di splice_remove1_nothing [OF out]
    by (simp add: handleReorderTasks_def json_copy_def Let_def)
qed

lemma reorder_negative_source:
  assumes si: "find_pos (\<lambda>b. block_id b = blockId source) s = Some si"
    and di: "find_pos (\<lambda>b. block_id b = blockId destination) s = Some di"
    and neg: "taskIndex source < 0" and ne: "tasks (s ! si) \<noteq> []"
  shows "handleReorderTasks source destination (Some s) =
         Some ((s[si := (s ! si)\<lparr>tasks :=
                   take (nat (max (int (length (tasks (s ! si))) + taskIndex source) 0)) (tasks (s ! si)) @
                   drop (Suc (nat (max (int (length (tasks (s ! si))) + taskIndex source) 0))) (tasks (s ! si))\<rparr>])
               [di := (s[si := (s ! si)\<lparr>tasks :=
                   take (nat (max (int (length (tasks (s ! si))) + taskIndex source) 0)) (tasks (s ! si)) @
                   drop (Suc (nat (max (int (length (tasks (s ! si))) + taskIndex source) 0))) (tasks (s ! si))\<rparr>] ! di)
                 \<lparr>tasks := splice_insert
                    (tasks (s[si := (s ! si)\<lparr>tasks :=
                       take (nat (max (int (length (tasks (s ! si))) + taskIndex source) 0)) (tasks (s ! si)) @
                       drop (Suc (nat (max (int (length (tasks (s ! si))) + taskIndex source) 0))) (tasks (s ! si))\<rparr>] ! di))
                    (taskIndex destination)
                    (tasks (s ! si) ! nat (max (int (length (tasks (s ! si))) + taskIndex source) 0))\<rparr>])"
  using si di splice_remove1_negative [OF neg ne]
  by (simp add: handleReorderTasks_def json_copy_def Let_def)

text \<open>
  C9, as the code has it. Both block ids are found and the source index is out of
  range for the source block (negative, or at or past the end).

  When the index is at or past the end, or the source block is empty,
  \<^verbatim>\<open>splice(source.taskIndex, 1)\<close> removes nothing, \<^verbatim>\<open>removedTask\<close> is \<^verbatim>\<open>undefined\<close>
  (\<open>None\<close>), and the operation inserts that empty entry into the destination block
  at the position \<^verbatim>\<open>splice\<close> gives \<^verbatim>\<open>destination.taskIndex\<close> (the index itself when it
  lies between 0 and the number of entries). The result differs from the schedule,
  the destination block has one entry more, no block has fewer, and the total is
  one more.

  When the index is negative and the source block has \<open>n > 0\<close> entries, \<^verbatim>\<open>splice\<close>
  counts from the end: the entry \<open>e\<close> at position \<open>k = max (n + taskIndex) 0\<close> is
  removed from the source block and inserted into the destination block at the
  position \<^verbatim>\<open>splice\<close> gives \<^verbatim>\<open>destination.taskIndex\<close>. The total number of entries is
  the same as before; when the two blocks differ, the source block has one entry
  fewer and the destination block one more.
\<close>

theorem reorder_source_out_of_range:
  "find_pos (\<lambda>b. block_id b = blockId source) s = Some si \<and>
   find_pos (\<lambda>b. block_id b = blockId destination) s = Some di \<and>
   (taskIndex source < 0 \<or> int (length (tasks (s ! si))) \<le> taskIndex source) \<longrightarrow>
     (if int (length (tasks (s ! si))) \<le> taskIndex source \<or> tasks (s ! si) = []
      then
        (\<exists>s'. handleReorderTasks source destination (Some s) = Some s' \<and>
           s' = s[di := (s ! di)\<lparr>tasks := splice_insert (tasks (s ! di)) (taskIndex destination) None\<rparr>] \<and>
           s' \<noteq> s \<and>
           js_index (tasks (s' ! di))
             (int (splice_start (taskIndex destination) (length (tasks (s ! di))))) = Some None \<and>
           (0 \<le> taskIndex destination \<and> taskIndex destination \<le> int (length (tasks (s ! di))) \<longrightarrow>
              js_index (tasks (s' ! di)) (taskIndex destination) = Some None) \<and>
           length (tasks (s' ! di)) = length (tasks (s ! di)) + 1 \<and>
           (\<forall>k < length s. length (tasks (s ! k)) \<le> length (tasks (s' ! k))) \<and>
           task_count s' = task_count s + 1)
      else
        (\<exists>k e s1 s'.
           k = nat (max (int (length (tasks (s ! si))) + taskIndex source) 0) \<and>
           k < length (tasks (s ! si)) \<and>
           e = tasks (s ! si) ! k \<and>
           s1 = s[si := (s ! si)\<lparr>tasks := take k (tasks (s ! si)) @ drop (Suc k) (tasks (s ! si))\<rparr>] \<and>
           s' = s1[di := (s1 ! di)\<lparr>tasks := splice_insert (tasks (s1 ! di)) (taskIndex destination) e\<rparr>] \<and>
           handleReorderTasks source destination (Some s) = Some s' \<and>
           js_index (tasks (s' ! di))
             (int (splice_start (taskIndex destination) (length (tasks (s1 ! di))))) = Some e \<and>
           task_count s' = task_count s \<and>
           (si \<noteq> di \<longrightarrow>
              length (tasks (s' ! si)) + 1 = length (tasks (s ! si)) \<and>
              length (tasks (s' ! di)) = length (tasks (s ! di)) + 1)))"
proof (intro impI)
  assume a: "find_pos (\<lambda>b. block_id b = blockId source) s = Some si \<and>
   find_pos (\<lambda>b. block_id b = blockId destination) s = Some di \<and>
   (taskIndex source < 0 \<or> int (length (tasks (s ! si))) \<le> taskIndex source)"
  then have si: "si < length s" and di: "di < length s" by (auto dest: find_pos_Some)
  show "if int (length (tasks (s ! si))) \<le> taskIndex source \<or> tasks (s ! si) = []
      then
        (\<exists>s'. handleReorderTasks source destination (Some s) = Some s' \<and>
           s' = s[di := (s ! di)\<lparr>tasks := splice_insert (tasks (s ! di)) (taskIndex destination) None\<rparr>] \<and>
           s' \<noteq> s \<and>
           js_index (tasks (s' ! di))
             (int (splice_start (taskIndex destination) (length (tasks (s ! di))))) = Some None \<and>
           (0 \<le> taskIndex destination \<and> taskIndex destination \<le> int (length (tasks (s ! di))) \<longrightarrow>
              js_index (tasks (s' ! di)) (taskIndex destination) = Some None) \<and>
           length (tasks (s' ! di)) = length (tasks (s ! di)) + 1 \<and>
           (\<forall>k < length s. length (tasks (s ! k)) \<le> length (tasks (s' ! k))) \<and>
           task_count s' = task_count s + 1)
      else
        (\<exists>k e s1 s'.
           k = nat (max (int (length (tasks (s ! si))) + taskIndex source) 0) \<and>
           k < length (tasks (s ! si)) \<and>
           e = tasks (s ! si) ! k \<and>
           s1 = s[si := (s ! si)\<lparr>tasks := take k (tasks (s ! si)) @ drop (Suc k) (tasks (s ! si))\<rparr>] \<and>
           s' = s1[di := (s1 ! di)\<lparr>tasks := splice_insert (tasks (s1 ! di)) (taskIndex destination) e\<rparr>] \<and>
           handleReorderTasks source destination (Some s) = Some s' \<and>
           js_index (tasks (s' ! di))
             (int (splice_start (taskIndex destination) (length (tasks (s1 ! di))))) = Some e \<and>
           task_count s' = task_count s \<and>
           (si \<noteq> di \<longrightarrow>
              length (tasks (s' ! si)) + 1 = length (tasks (s ! si)) \<and>
              length (tasks (s' ! di)) = length (tasks (s ! di)) + 1))"
  proof (cases "int (length (tasks (s ! si))) \<le> taskIndex source \<or> tasks (s ! si) = []")
    case True
    define new_tasks where "new_tasks = splice_insert (tasks (s ! di)) (taskIndex destination) None"
    define s' where "s' = s[di := (s ! di)\<lparr>tasks := new_tasks\<rparr>]"
    have run: "handleReorderTasks source destination (Some s) = Some s'"
      using a True reorder_nothing_removed [of source s si destination di]
      by (simp add: s'_def new_tasks_def)
    have dst: "tasks (s' ! di) = new_tasks"
      using di by (simp add: s'_def)
    have len: "length new_tasks = length (tasks (s ! di)) + 1"
      by (simp add: new_tasks_def splice_insert_length)
    have at: "js_index new_tasks (int (splice_start (taskIndex destination) (length (tasks (s ! di))))) = Some None"
      by (simp add: new_tasks_def splice_insert_at)
    have at2: "0 \<le> taskIndex destination \<and> taskIndex destination \<le> int (length (tasks (s ! di))) \<longrightarrow>
        js_index new_tasks (taskIndex destination) = Some None"
    proof
      assume r: "0 \<le> taskIndex destination \<and> taskIndex destination \<le> int (length (tasks (s ! di)))"
      then have "int (splice_start (taskIndex destination) (length (tasks (s ! di)))) = taskIndex destination"
        by (auto simp: splice_start_def min_def)
      with at show "js_index new_tasks (taskIndex destination) = Some None" by simp
    qed
    have ne: "s' \<noteq> s"
    proof
      assume "s' = s"
      then have "tasks (s' ! di) = tasks (s ! di)" by simp
      with dst len show False by simp
    qed
    have grow: "\<forall>k < length s. length (tasks (s ! k)) \<le> length (tasks (s' ! k))"
    proof (intro allI impI)
      fix k assume "k < length s"
      then show "length (tasks (s ! k)) \<le> length (tasks (s' ! k))"
        using len by (cases "k = di") (simp_all add: s'_def)
    qed
    have cnt: "task_count s' = task_count s + 1"
      using di task_count_update [of di s "(s ! di)\<lparr>tasks := new_tasks\<rparr>"] len by (simp add: s'_def)
    have stmt: "\<exists>s'. handleReorderTasks source destination (Some s) = Some s' \<and>
           s' = s[di := (s ! di)\<lparr>tasks := splice_insert (tasks (s ! di)) (taskIndex destination) None\<rparr>] \<and>
           s' \<noteq> s \<and>
           js_index (tasks (s' ! di))
             (int (splice_start (taskIndex destination) (length (tasks (s ! di))))) = Some None \<and>
           (0 \<le> taskIndex destination \<and> taskIndex destination \<le> int (length (tasks (s ! di))) \<longrightarrow>
              js_index (tasks (s' ! di)) (taskIndex destination) = Some None) \<and>
           length (tasks (s' ! di)) = length (tasks (s ! di)) + 1 \<and>
           (\<forall>k < length s. length (tasks (s ! k)) \<le> length (tasks (s' ! k))) \<and>
           task_count s' = task_count s + 1"
      using run dst len at at2 ne grow cnt
      by (intro exI [of _ s']) (simp add: s'_def new_tasks_def)
    show ?thesis
      unfolding if_P [OF True] by (rule stmt)
  next
    case False
    then have neg: "taskIndex source < 0" and nonempty: "tasks (s ! si) \<noteq> []"
      using a by auto
    define xs where "xs = tasks (s ! si)"
    define k where "k = nat (max (int (length xs) + taskIndex source) 0)"
    define e where "e = xs ! k"
    define rest where "rest = take k xs @ drop (Suc k) xs"
    define s1 where "s1 = s[si := (s ! si)\<lparr>tasks := rest\<rparr>]"
    define new_tasks where "new_tasks = splice_insert (tasks (s1 ! di)) (taskIndex destination) e"
    define s' where "s' = s1[di := (s1 ! di)\<lparr>tasks := new_tasks\<rparr>]"
    have k: "k < length xs"
      using splice_remove1_negative [OF neg nonempty] by (simp add: k_def xs_def)
    have run: "handleReorderTasks source destination (Some s) = Some s'"
      unfolding s'_def new_tasks_def s1_def rest_def e_def k_def xs_def
      using a neg nonempty by (intro reorder_negative_source) simp_all
    have l1: "length s1 = length s" by (simp add: s1_def)
    have dst: "tasks (s' ! di) = new_tasks"
      using di l1 by (simp add: s'_def)
    have at: "js_index (tasks (s' ! di))
        (int (splice_start (taskIndex destination) (length (tasks (s1 ! di))))) = Some e"
      by (simp add: dst new_tasks_def splice_insert_at)
    have lrest: "length rest + 1 = length xs"
      using k by (simp add: rest_def)
    have c1: "task_count s1 + length xs = task_count s + length rest"
      using si task_count_update [of si s "(s ! si)\<lparr>tasks := rest\<rparr>"] by (simp add: s1_def xs_def)
    have lnew: "length new_tasks = length (tasks (s1 ! di)) + 1"
      by (simp add: new_tasks_def splice_insert_length)
    have c2: "task_count s' + length (tasks (s1 ! di)) = task_count s1 + length new_tasks"
      using di l1 task_count_update [of di s1 "(s1 ! di)\<lparr>tasks := new_tasks\<rparr>"] by (simp add: s'_def)
    have cnt: "task_count s' = task_count s"
      using c1 c2 lrest lnew by simp
    have diff: "si \<noteq> di \<longrightarrow>
              length (tasks (s' ! si)) + 1 = length (tasks (s ! si)) \<and>
              length (tasks (s' ! di)) = length (tasks (s ! di)) + 1"
    proof
      assume d: "si \<noteq> di"
      then have "tasks (s' ! si) = rest"
        using si by (simp add: s'_def s1_def)
      moreover have "tasks (s1 ! di) = tasks (s ! di)"
        using d by (simp add: s1_def)
      ultimately show "length (tasks (s' ! si)) + 1 = length (tasks (s ! si)) \<and>
              length (tasks (s' ! di)) = length (tasks (s ! di)) + 1"
        using lrest dst lnew by (simp add: xs_def)
    qed
    have e1: "k = nat (max (int (length (tasks (s ! si))) + taskIndex source) 0)"
      by (simp add: k_def xs_def)
    have e2: "k < length (tasks (s ! si))"
      using k by (simp add: xs_def)
    have e3: "e = tasks (s ! si) ! k"
      by (simp add: e_def xs_def)
    have e4: "s1 = s[si := (s ! si)\<lparr>tasks := take k (tasks (s ! si)) @ drop (Suc k) (tasks (s ! si))\<rparr>]"
      by (simp add: s1_def rest_def xs_def)
    have e5: "s' = s1[di := (s1 ! di)\<lparr>tasks := splice_insert (tasks (s1 ! di)) (taskIndex destination) e\<rparr>]"
      by (simp add: s'_def new_tasks_def)
    have stmt: "\<exists>k e s1 s'.
           k = nat (max (int (length (tasks (s ! si))) + taskIndex source) 0) \<and>
           k < length (tasks (s ! si)) \<and>
           e = tasks (s ! si) ! k \<and>
           s1 = s[si := (s ! si)\<lparr>tasks := take k (tasks (s ! si)) @ drop (Suc k) (tasks (s ! si))\<rparr>] \<and>
           s' = s1[di := (s1 ! di)\<lparr>tasks := splice_insert (tasks (s1 ! di)) (taskIndex destination) e\<rparr>] \<and>
           handleReorderTasks source destination (Some s) = Some s' \<and>
           js_index (tasks (s' ! di))
             (int (splice_start (taskIndex destination) (length (tasks (s1 ! di))))) = Some e \<and>
           task_count s' = task_count s \<and>
           (si \<noteq> di \<longrightarrow>
              length (tasks (s' ! si)) + 1 = length (tasks (s ! si)) \<and>
              length (tasks (s' ! di)) = length (tasks (s ! di)) + 1)"
      apply (rule exI [of _ k])
      apply (rule exI [of _ e])
      apply (rule exI [of _ s1])
      apply (rule exI [of _ s'])
      apply (intro conjI)
              apply (rule e1)
             apply (rule e2)
            apply (rule e3)
           apply (rule e4)
          apply (rule e5)
         apply (rule run)
        apply (rule at)
       apply (rule cnt)
      apply (rule diff)
      done
    show ?thesis
      unfolding if_not_P [OF False] by (rule stmt)
  qed
qed

text \<open>
  C9 as stated fails for a negative source index on a source block that is not
  empty. The index is out of range (\<^verbatim>\<open>tasks[-1]\<close> is \<^verbatim>\<open>undefined\<close>), but \<^verbatim>\<open>splice(-1, 1)\<close>
  counts from the end and removes the last task, which moves to the destination:
  the source block shrinks and the total is conserved. It also fails for a
  destination index past the end of the destination block: with the source index
  past the end and destination index 5 on a block of one task, the empty entry is
  inserted at position 1, and position 5 holds no entry.
\<close>

theorem reorder_negative_source_counterexample:
  "find_pos (\<lambda>b. block_id b = 1) [ex_block 1 [Some ex_task_a], ex_block 2 [Some ex_task_b]] = Some 0 \<and>
   find_pos (\<lambda>b. block_id b = 2) [ex_block 1 [Some ex_task_a], ex_block 2 [Some ex_task_b]] = Some 1 \<and>
   js_index (tasks (ex_block 1 [Some ex_task_a])) (- 1) = None \<and>
   handleReorderTasks \<lparr>blockId = 1, taskIndex = - 1\<rparr> \<lparr>blockId = 2, taskIndex = 0\<rparr>
       (Some [ex_block 1 [Some ex_task_a], ex_block 2 [Some ex_task_b]])
     = Some [ex_block 1 [], ex_block 2 [Some ex_task_a, Some ex_task_b]] \<and>
   task_count [ex_block 1 [], ex_block 2 [Some ex_task_a, Some ex_task_b]] =
   task_count [ex_block 1 [Some ex_task_a], ex_block 2 [Some ex_task_b]] \<and>
   js_index (tasks (ex_block 1 [Some ex_task_a])) 1 = None \<and>
   handleReorderTasks \<lparr>blockId = 1, taskIndex = 1\<rparr> \<lparr>blockId = 2, taskIndex = 5\<rparr>
       (Some [ex_block 1 [Some ex_task_a], ex_block 2 [Some ex_task_b]])
     = Some [ex_block 1 [Some ex_task_a], ex_block 2 [Some ex_task_b, None]] \<and>
   js_index (tasks (ex_block 2 [Some ex_task_b, None])) 5 = None \<and>
   js_index (tasks (ex_block 2 [Some ex_task_b, None])) 1 = Some None"
  by (simp add: handleReorderTasks_def json_copy_def ex_block_def js_index_def task_count_def
      splice_remove1_def splice_insert_def splice_start_def)

text \<open>
  The theorem of C9 at three schedules: a source index past the end of a block of
  one task, a negative source index on an empty source block, and a negative
  source index on a block of two tasks.
\<close>

theorem reorder_source_out_of_range_witness:
  "handleReorderTasks \<lparr>blockId = 1, taskIndex = 1\<rparr> \<lparr>blockId = 2, taskIndex = 1\<rparr>
       (Some [ex_block 1 [Some ex_task_a], ex_block 2 [Some ex_task_b, Some ex_task_c]])
     = Some [ex_block 1 [Some ex_task_a], ex_block 2 [Some ex_task_b, None, Some ex_task_c]] \<and>
   task_count [ex_block 1 [Some ex_task_a], ex_block 2 [Some ex_task_b, None, Some ex_task_c]] =
   task_count [ex_block 1 [Some ex_task_a], ex_block 2 [Some ex_task_b, Some ex_task_c]] + 1 \<and>
   handleReorderTasks \<lparr>blockId = 1, taskIndex = - 1\<rparr> \<lparr>blockId = 2, taskIndex = 0\<rparr>
       (Some [ex_block 1 [], ex_block 2 [Some ex_task_b]])
     = Some [ex_block 1 [], ex_block 2 [None, Some ex_task_b]] \<and>
   handleReorderTasks \<lparr>blockId = 1, taskIndex = - 1\<rparr> \<lparr>blockId = 2, taskIndex = 0\<rparr>
       (Some [ex_block 1 [Some ex_task_a, Some ex_task_c], ex_block 2 [Some ex_task_b]])
     = Some [ex_block 1 [Some ex_task_a], ex_block 2 [Some ex_task_c, Some ex_task_b]] \<and>
   task_count [ex_block 1 [Some ex_task_a], ex_block 2 [Some ex_task_c, Some ex_task_b]] =
   task_count [ex_block 1 [Some ex_task_a, Some ex_task_c], ex_block 2 [Some ex_task_b]]"
proof -
  let ?s1 = "[ex_block 1 [Some ex_task_a], ex_block 2 [Some ex_task_b, Some ex_task_c]]"
  let ?s2 = "[ex_block 1 [], ex_block 2 [Some ex_task_b]]"
  let ?s3 = "[ex_block 1 [Some ex_task_a, Some ex_task_c], ex_block 2 [Some ex_task_b]]"
  let ?past = "\<lparr>blockId = 1, taskIndex = 1\<rparr>"
  let ?neg = "\<lparr>blockId = 1, taskIndex = - 1\<rparr>"
  let ?d1 = "\<lparr>blockId = 2, taskIndex = 1\<rparr>"
  let ?d0 = "\<lparr>blockId = 2, taskIndex = 0\<rparr>"
  have h1: "find_pos (\<lambda>b. block_id b = blockId ?past) ?s1 = Some 0 \<and>
    find_pos (\<lambda>b. block_id b = blockId ?d1) ?s1 = Some 1 \<and>
    (taskIndex ?past < 0 \<or> int (length (tasks (?s1 ! 0))) \<le> taskIndex ?past)"
    by (simp add: ex_block_def)
  have h2: "find_pos (\<lambda>b. block_id b = blockId ?neg) ?s2 = Some 0 \<and>
    find_pos (\<lambda>b. block_id b = blockId ?d0) ?s2 = Some 1 \<and>
    (taskIndex ?neg < 0 \<or> int (length (tasks (?s2 ! 0))) \<le> taskIndex ?neg)"
    by (simp add: ex_block_def)
  have h3: "find_pos (\<lambda>b. block_id b = blockId ?neg) ?s3 = Some 0 \<and>
    find_pos (\<lambda>b. block_id b = blockId ?d0) ?s3 = Some 1 \<and>
    (taskIndex ?neg < 0 \<or> int (length (tasks (?s3 ! 0))) \<le> taskIndex ?neg)"
    by (simp add: ex_block_def)
  have r1: "handleReorderTasks ?past ?d1 (Some ?s1)
      = Some [ex_block 1 [Some ex_task_a], ex_block 2 [Some ex_task_b, None, Some ex_task_c]] \<and>
    task_count [ex_block 1 [Some ex_task_a], ex_block 2 [Some ex_task_b, None, Some ex_task_c]] =
    task_count ?s1 + 1"
    using reorder_source_out_of_range [of ?past ?s1 0 ?d1 1] h1
    by (simp add: ex_block_def splice_insert_def splice_start_def)
  have r2: "handleReorderTasks ?neg ?d0 (Some ?s2) = Some [ex_block 1 [], ex_block 2 [None, Some ex_task_b]]"
    using reorder_source_out_of_range [of ?neg ?s2 0 ?d0 1] h2
    by (simp add: ex_block_def splice_insert_def splice_start_def)
  have r3: "handleReorderTasks ?neg ?d0 (Some ?s3)
      = Some [ex_block 1 [Some ex_task_a], ex_block 2 [Some ex_task_c, Some ex_task_b]] \<and>
    task_count [ex_block 1 [Some ex_task_a], ex_block 2 [Some ex_task_c, Some ex_task_b]] = task_count ?s3"
    using reorder_source_out_of_range [of ?neg ?s3 0 ?d0 1] h3
    by (simp add: ex_block_def splice_insert_def splice_start_def)
  from r1 r2 r3 show ?thesis by simp
qed

section \<open>Clearing completed tasks\<close>

text \<open>
  C6. For every schedule and completion map, \<^verbatim>\<open>handleClearCompletedTasks\<close> keeps
  every block, and in each block exactly the entries at the positions \<open>i\<close> (positions
  in the array before filtering) whose key \<^verbatim>\<open>`${block.id}-${i}`\<close> does not map to
  \<^verbatim>\<open>true\<close>, in their order (\<open>nths xs A\<close> is the list of the elements of \<open>xs\<close> at the
  positions in \<open>A\<close>, in order); the entries whose key maps to \<^verbatim>\<open>true\<close> are the ones
  removed. The absent schedule stays absent.
\<close>

theorem clear_completed_exact:
  "handleClearCompletedTasks cm None = None \<and>
   handleClearCompletedTasks cm (Some s) =
     Some (map (\<lambda>b. b\<lparr>tasks := nths (tasks b) {i. cm (taskId (block_id b) i) \<noteq> Some True}\<rparr>) s)"
  by (simp add: handleClearCompletedTasks_def filter_indexed_nths)

section \<open>Block ids under the store operations\<close>







section \<open>The parser returns, with sequential ids\<close>

lemma split_aux_nonempty: "split_aux sep cur s \<noteq> []"
  by (induction sep cur s rule: split_aux.induct) simp_all

lemma split_nonempty: "sep \<noteq> [] \<Longrightarrow> split s sep \<noteq> []"
  by (simp add: split_def split_aux_nonempty)

lemma parse_block_total: "\<exists>b. parse_block index block = Inr b \<and> block_id b = index"
proof -
  obtain l ls where "split (trim block) ''\<newline>'' = l # ls"
    using split_nonempty [of "''\<newline>''" "trim block"] by (cases "split (trim block) ''\<newline>''") auto
  then show ?thesis
    by (simp add: parse_block_def Let_def case_prod_unfold)
qed

lemma map_from_total:
  assumes "\<And>i x. \<exists>y. f i x = Inr y \<and> block_id y = i"
  shows "\<exists>ys. map_from k f xs = Inr ys \<and> length ys = length xs \<and> map block_id ys = [k..<k + length xs]"
proof (induction xs arbitrary: k)
  case Nil
  then show ?case by simp
next
  case (Cons x xs)
  obtain y where y: "f k x = Inr y" "block_id y = k"
    using assms by blast
  obtain ys where ys: "map_from (Suc k) f xs = Inr ys" "length ys = length xs"
      "map block_id ys = [Suc k..<Suc k + length xs]"
    using Cons.IH [of "Suc k"] by blast
  have "[k..<k + length (x # xs)] = k # [Suc k..<Suc k + length xs]"
    using upt_conv_Cons [of k "k + Suc (length xs)"] by simp
  then show ?case using y ys by simp
qed

lemma parse_total_ids:
  "\<exists>bs. parsePlannerContent content = Inr bs \<and>
        length bs = length (filter (\<lambda>block. trim block \<noteq> '''' \<and> CHR '':'' \<in> set block) (split content ''**'')) \<and>
        map block_id bs = [0..<length bs]"
proof (cases "content = []")
  case True
  then show ?thesis
    by (simp add: parsePlannerContent_def split_def trim_def)
next
  case False
  let ?frags = "filter (\<lambda>block. trim block \<noteq> '''' \<and> CHR '':'' \<in> set block) (split content ''**'')"
  obtain ys where "map_from 0 parse_block ?frags = Inr ys" "length ys = length ?frags"
     "map block_id ys = [0..<0 + length ?frags]"
    using map_from_total [of parse_block 0 ?frags] parse_block_total by blast
  then show ?thesis using False
    by (simp add: parsePlannerContent_def map_indexed_def)
qed


text \<open>
  C8. \<^verbatim>\<open>parsePlannerContent\<close> returns a sequence of blocks for every input string. The
  one operation of the function that can throw on a string input is the call of
  \<^verbatim>\<open>match\<close> on \<^verbatim>\<open>lines[0]\<close>, which the model makes an exception when the array of lines
  is empty; \<^verbatim>\<open>split\<close> never returns an empty array, so the exception never occurs.
  The empty string, a blank string and a document without a colon give the empty
  sequence; a lone colon gives one block with empty time and title.
\<close>

theorem parsePlannerContent_total:
  "(\<exists>bs. parsePlannerContent content = Inr bs) \<and>
   parsePlannerContent '''' = Inr [] \<and>
   parsePlannerContent '' \<newline>  '' = Inr [] \<and>
   parsePlannerContent ''no bold and no colon'' = Inr [] \<and>
   parsePlannerContent ''Lunch: soup'' =
     Inr [\<lparr>block_id = 0, time = ''Lunch'', title = ''soup'', tasks = []\<rparr>] \<and>
   parsePlannerContent '':'' = Inr [\<lparr>block_id = 0, time = '''', title = '''', tasks = []\<rparr>]"
proof -
  have "\<exists>bs. parsePlannerContent content = Inr bs"
    using parse_total_ids [of content] by blast
  moreover have "parsePlannerContent '''' = Inr []"
    by code_simp
  moreover have "parsePlannerContent '' \<newline>  '' = Inr []"
    by code_simp
  moreover have "parsePlannerContent ''no bold and no colon'' = Inr []"
    by code_simp
  moreover have "parsePlannerContent ''Lunch: soup'' =
     Inr [\<lparr>block_id = 0, time = ''Lunch'', title = ''soup'', tasks = []\<rparr>]"
    by code_simp
  moreover have "parsePlannerContent '':'' = Inr [\<lparr>block_id = 0, time = '''', title = '''', tasks = []\<rparr>]"
    by code_simp
  ultimately show ?thesis by blast
qed

section \<open>The parser on the documented format\<close>

text \<open>
  The end-to-end input of C2. Splitting on \<^verbatim>\<open>**\<close> cuts at the closing delimiter of
  a heading as well as at the opening one, so the bullet lines after a heading are
  a fragment of their own.
\<close>

lemma end_to_end_fragments:
  "split ''**7:00 AM - 8:00 AM: Morning**\<newline>* Eat breakfast\<newline>* Brush teeth\<newline>\<newline>**8:00 AM - 9:00 AM: Work: Deep Focus**\<newline>* Write report'' ''**'' =
   ['''',
    ''7:00 AM - 8:00 AM: Morning'',
    ''\<newline>* Eat breakfast\<newline>* Brush teeth\<newline>\<newline>'',
    ''8:00 AM - 9:00 AM: Work: Deep Focus'',
    ''\<newline>* Write report'']"
  by code_simp

text \<open>
  C2, what the code does. The fragments with the bullet lines hold no colon and are
  discarded by the filter; the two fragments that survive are the headings alone.
  The parser returns two blocks with ids 0 and 1, the times and titles of the claim
  (the colon inside \<^verbatim>\<open>Work: Deep Focus\<close> stays in the title), and no task in either
  block, where the claim has the tasks \<^verbatim>\<open>Eat breakfast\<close>, \<^verbatim>\<open>Brush teeth\<close> and
  \<^verbatim>\<open>Write report\<close>.
\<close>

theorem end_to_end_parse_has_no_tasks:
  "parsePlannerContent ''**7:00 AM - 8:00 AM: Morning**\<newline>* Eat breakfast\<newline>* Brush teeth\<newline>\<newline>**8:00 AM - 9:00 AM: Work: Deep Focus**\<newline>* Write report'' =
   Inr [\<lparr>block_id = 0, time = ''7:00 AM - 8:00 AM'', title = ''Morning'', tasks = []\<rparr>,
        \<lparr>block_id = 1, time = ''8:00 AM - 9:00 AM'', title = ''Work: Deep Focus'', tasks = []\<rparr>]"
  by code_simp

text \<open>
  Task lines are read only when they stand inside the same fragment as the
  heading, as in a document whose heading is not closed by \<^verbatim>\<open>**\<close>.
\<close>

lemma unclosed_heading_keeps_tasks:
  "parsePlannerContent ''**7:00 AM - 8:00 AM: Morning\<newline>* Eat breakfast\<newline>- Brush teeth'' =
   Inr [\<lparr>block_id = 0, time = ''7:00 AM - 8:00 AM'', title = ''Morning'',
         tasks = [Some \<lparr>task_text = ''Eat breakfast'', task_notes = ''''\<rparr>,
                  Some \<lparr>task_text = ''Brush teeth'', task_notes = ''''\<rparr>]\<rparr>]"
  by code_simp

section \<open>The time matcher and the pattern\<close>

lemma period_at_Some:
  "period_at s = Some p \<Longrightarrow> p \<in> period_strings \<and> (\<exists>rest. s = p @ rest)"
  unfolding period_at_def period_strings_def
  by (auto split: list.splits if_splits)

lemma period_not_space:
  "p \<in> period_strings \<Longrightarrow> \<exists>a b. p = [a, b] \<and> \<not> isSpace a \<and> \<not> isSpace b \<and> period_at (a # b # rest) = Some p"
  unfolding period_strings_def period_at_def isSpace_def by auto

lemma dropWhile_spaces_append:
  "list_all isSpace ws \<Longrightarrow> \<not> isSpace a \<Longrightarrow> dropWhile isSpace (ws @ a # r) = a # r"
  by (induction ws) simp_all

lemma time_rest_Some:
  assumes "time_rest s = Some (m, p)"
  shows "\<exists>ws rest. s = '':'' @ m @ ws @ p @ rest \<and> length m = 2 \<and> list_all isDigit m \<and>
           list_all isSpace ws \<and> p \<in> period_strings"
proof -
  from assms obtain m1 m2 r where s: "s = CHR '':'' # m1 # m2 # r" and d: "isDigit m1" "isDigit m2"
    and pa: "period_at (dropWhile isSpace r) = Some p" and m: "m = [m1, m2]"
    unfolding time_rest_def by (auto split: list.splits if_splits option.splits)
  from period_at_Some [OF pa] obtain rest where p: "p \<in> period_strings" and r: "dropWhile isSpace r = p @ rest"
    by blast
  have "r = takeWhile isSpace r @ p @ rest"
    using r takeWhile_dropWhile_id [of isSpace r] by simp
  moreover have "list_all isSpace (takeWhile isSpace r)"
    by (simp add: list_all_iff) (meson set_takeWhileD)
  ultimately show ?thesis using s d m p by (intro exI [of _ "takeWhile isSpace r"] exI [of _ rest]) simp
qed

lemma time_rest_append:
  assumes "length m = 2" "list_all isDigit m" "list_all isSpace ws" "p \<in> period_strings"
  shows "time_rest ('':'' @ m @ ws @ p @ rest) = Some (m, p)"
proof -
  obtain m1 m2 where m: "m = [m1, m2]"
    using assms(1) by (cases m; cases "tl m") auto
  obtain a b where p: "p = [a, b]" "\<not> isSpace a" "period_at (a # b # rest) = Some p"
    using period_not_space [OF assms(4)] by blast
  have "dropWhile isSpace (ws @ p @ rest) = a # b # rest"
    using dropWhile_spaces_append [OF assms(3) p(2)] p(1) by simp
  then show ?thesis
    using m assms(2) p by (simp add: time_rest_def)
qed

lemma time_at_Some:
  assumes "time_at s = Some (h, m, p)"
  shows "\<exists>ws rest. s = h @ '':'' @ m @ ws @ p @ rest \<and> (length h = 1 \<or> length h = 2) \<and>
           list_all isDigit h \<and> length m = 2 \<and> list_all isDigit m \<and>
           list_all isSpace ws \<and> p \<in> period_strings"
proof -
  from assms obtain d1 r1 where s: "s = d1 # r1" and d1: "isDigit d1"
    unfolding time_at_def by (auto split: list.splits if_splits)
  consider (one) "time_rest r1 = Some (m, p)" "h = [d1]"
    | (two) d2 r2 where "r1 = d2 # r2" "isDigit d2" "time_rest r2 = Some (m, p)" "h = [d1, d2]"
    using assms s d1 unfolding time_at_def
    by (auto simp: Let_def split: list.splits if_splits option.splits)
  then show ?thesis
  proof cases
    case one
    from time_rest_Some [OF one(1)] show ?thesis using s d1 one(2) by auto
  next
    case two
    from time_rest_Some [OF two(3)] show ?thesis using s d1 two by auto
  qed
qed

lemma not_digit_colon: "\<not> isDigit (CHR '':'')"
  by (simp add: isDigit_def)

lemma time_at_append:
  assumes "length h = 1 \<or> length h = 2" "list_all isDigit h"
    "length m = 2" "list_all isDigit m" "list_all isSpace ws" "p \<in> period_strings"
  shows "time_at (h @ '':'' @ m @ ws @ p @ rest) = Some (h, m, p)"
proof -
  note tr = time_rest_append [OF assms(3-6), of rest]
  from assms(1) show ?thesis
  proof
    assume "length h = 1"
    then obtain d1 where h: "h = [d1]" by (cases h) auto
    then show ?thesis using assms(2) tr
      by (simp add: time_at_def Let_def not_digit_colon)
  next
    assume "length h = 2"
    then obtain d1 d2 where h: "h = [d1, d2]" by (cases h; cases "tl h") auto
    then show ?thesis using assms(2) tr
      by (simp add: time_at_def Let_def)
  qed
qed

lemma time_at_token: "(\<exists>r. time_at s = Some r) \<longleftrightarrow> (\<exists>w rest. s = w @ rest \<and> time_token w)"
proof
  assume "\<exists>r. time_at s = Some r"
  then obtain h m p where "time_at s = Some (h, m, p)" by (metis prod_cases3)
  from time_at_Some [OF this] obtain ws rest where
    "s = h @ '':'' @ m @ ws @ p @ rest" "length h = 1 \<or> length h = 2"
    "list_all isDigit h" "length m = 2" "list_all isDigit m" "list_all isSpace ws" "p \<in> period_strings"
    by blast
  then have "s = (h @ '':'' @ m @ ws @ p) @ rest \<and> time_token (h @ '':'' @ m @ ws @ p)"
    unfolding time_token_def by auto
  then show "\<exists>w rest. s = w @ rest \<and> time_token w" by blast
next
  assume "\<exists>w rest. s = w @ rest \<and> time_token w"
  then obtain w rest h m ws p where "s = w @ rest" "w = h @ '':'' @ m @ ws @ p"
    "length h = 1 \<or> length h = 2"
    "list_all isDigit h" "length m = 2" "list_all isDigit m" "list_all isSpace ws" "p \<in> period_strings"
    unfolding time_token_def by blast
  then show "\<exists>r. time_at s = Some r"
    using time_at_append [of h m ws p rest] by simp
qed

lemma time_match_Some: "time_match s = Some r \<Longrightarrow> \<exists>pre x. s = pre @ x \<and> time_at x = Some r"
proof (induction s)
  case Nil
  then show ?case by simp
next
  case (Cons c cs)
  show ?case
  proof (cases "time_at (c # cs)")
    case None
    with Cons obtain pre x where "cs = pre @ x" "time_at x = Some r" by auto
    then have "c # cs = (c # pre) @ x \<and> time_at x = Some r" by simp
    then show ?thesis by blast
  next
    case (Some a)
    with Cons.prems have "c # cs = [] @ (c # cs) \<and> time_at (c # cs) = Some r" by simp
    then show ?thesis by blast
  qed
qed

lemma time_at_Nil: "time_at [] = None"
  by (simp add: time_at_def)

lemma time_match_append: "time_at x = Some r \<Longrightarrow> \<exists>r'. time_match (pre @ x) = Some r'"
proof (induction pre)
  case Nil
  then obtain c cs where "x = c # cs" by (cases x) (auto simp: time_at_Nil)
  with Nil have "time_match ([] @ x) = Some r" by simp
  then show ?case by blast
next
  case (Cons c pre)
  then show ?case by (cases "time_at (c # pre @ x)") auto
qed

lemma time_match_contains: "time_match s \<noteq> None \<longleftrightarrow> contains_time s"
proof
  assume "time_match s \<noteq> None"
  then obtain r pre x where "s = pre @ x" "time_at x = Some r"
    using time_match_Some by blast
  then obtain w rest where "s = pre @ w @ rest" "time_token w"
    using time_at_token [of x] by blast
  then show "contains_time s" unfolding contains_time_def by blast
next
  assume "contains_time s"
  then obtain pre w post where s: "s = pre @ w @ post" and "time_token w"
    unfolding contains_time_def by blast
  then obtain r where "time_at (w @ post) = Some r"
    using time_at_token [of "w @ post"] by blast
  from time_match_append [OF this, of pre] show "time_match s \<noteq> None"
    using s by auto
qed

section \<open>parseTime\<close>

lemma trim_infix: "\<exists>a b. s = a @ trim s @ b"
proof -
  define t where "t = dropWhile isSpace s"
  have s: "s = takeWhile isSpace s @ t"
    by (simp add: t_def)
  have "trim s @ rev (takeWhile isSpace (rev t)) =
        rev (takeWhile isSpace (rev t) @ dropWhile isSpace (rev t))"
    by (simp only: rev_append trim_def t_def)
  also have "\<dots> = t"
    by (simp only: takeWhile_dropWhile_id rev_rev_ident)
  finally have "t = trim s @ rev (takeWhile isSpace (rev t))" by simp
  with s have "s = takeWhile isSpace s @ trim s @ rev (takeWhile isSpace (rev t))"
    by simp
  then show ?thesis by blast
qed

lemma time_token_ends:
  assumes "time_token w"
  shows "\<exists>d u l. w = d # u @ [l] \<and> \<not> isSpace d \<and> \<not> isSpace l"
proof -
  from assms obtain h m ws p where w: "w = h @ '':'' @ m @ ws @ p"
    and h: "length h = 1 \<or> length h = 2" "list_all isDigit h" and p: "p \<in> period_strings"
    unfolding time_token_def by blast
  from h obtain d h' where hd: "h = d # h'" "isDigit d" by (cases h) auto
  then have nd: "\<not> isSpace d" by (auto simp: isDigit_def isSpace_def)
  from period_not_space [OF p, of "[]"] obtain a b where ab: "p = [a, b]" "\<not> isSpace b" by blast
  have "w = d # (h' @ '':'' @ m @ ws @ [a]) @ [b]"
    using w hd ab by simp
  then show ?thesis using nd ab by blast
qed

lemma dropWhile_keeps_token:
  assumes "\<not> isSpace d"
  shows "\<exists>z. dropWhile isSpace (pre @ d # rest) = z @ d # rest"
proof (cases "\<forall>x \<in> set pre. isSpace x")
  case True
  then have "dropWhile isSpace (pre @ d # rest) = [] @ d # rest"
    using assms by (simp add: dropWhile_append)
  then show ?thesis by blast
next
  case False
  then obtain x where "x \<in> set pre" "\<not> isSpace x" by blast
  then have "dropWhile isSpace (pre @ d # rest) = dropWhile isSpace pre @ d # rest"
    by (rule dropWhile_append1)
  then show ?thesis by blast
qed

lemma contains_time_trim: "contains_time (trim s) \<longleftrightarrow> contains_time s"
proof
  assume "contains_time (trim s)"
  then obtain pre w post where t: "trim s = pre @ w @ post" "time_token w"
    unfolding contains_time_def by blast
  obtain a b where "s = a @ trim s @ b" using trim_infix by blast
  with t have "s = (a @ pre) @ w @ (post @ b)" by simp
  with t show "contains_time s" unfolding contains_time_def by blast
next
  assume "contains_time s"
  then obtain pre w post where s: "s = pre @ w @ post" and tok: "time_token w"
    unfolding contains_time_def by blast
  from time_token_ends [OF tok] obtain d u l where w: "w = d # u @ [l]" "\<not> isSpace d" "\<not> isSpace l"
    by blast
  obtain z where z: "dropWhile isSpace s = z @ w @ post"
    using dropWhile_keeps_token [OF w(2), of pre "u @ [l] @ post"] s w(1) by auto
  have "rev (z @ w @ post) = rev post @ l # (rev u @ d # rev z)"
    using w(1) by simp
  then obtain y where "dropWhile isSpace (rev (z @ w @ post)) = y @ l # (rev u @ d # rev z)"
    using dropWhile_keeps_token [OF w(3), of "rev post" "rev u @ d # rev z"] by auto
  then have "trim s = z @ w @ rev y"
    using z w(1) by (simp add: trim_def)
  with tok show "contains_time (trim s)" unfolding contains_time_def by blast
qed

lemma not_contains_time_Nil: "\<not> contains_time []"
  unfolding contains_time_def using time_token_ends by fastforce

lemma parseTime_Some_iff: "parseTime s \<noteq> None \<longleftrightarrow> contains_time s"
proof -
  have "parseTime s \<noteq> None \<longleftrightarrow> s \<noteq> [] \<and> time_match (trim s) \<noteq> None"
    by (auto simp: parseTime_def Let_def split: option.splits)
  also have "\<dots> \<longleftrightarrow> s \<noteq> [] \<and> contains_time s"
    by (simp only: time_match_contains contains_time_trim)
  also have "\<dots> \<longleftrightarrow> contains_time s"
    using not_contains_time_Nil by auto
  finally show ?thesis .
qed

text \<open>
  C4. \<open>parseTime\<close> converts to the 24-hour form: \<^verbatim>\<open>12:00 AM\<close> gives hour 0,
  \<^verbatim>\<open>12:30 PM\<close> hour 12 and \<^verbatim>\<open>7:05 PM\<close> hour 19 (the \<open>Date\<close> returned is the one
  \<open>setHours\<close> builds from that hour and the minutes). It returns \<^verbatim>\<open>null\<close> for the
  empty string, for \<^verbatim>\<open>garbage\<close>, and for every string no substring of which matches
  the pattern.
\<close>

theorem parseTime_hours_and_null:
  "map_option getHours (parseTime ''12:00 AM'') = Some 0 \<and>
   map_option getHours (parseTime ''12:30 PM'') = Some 12 \<and>
   map_option getHours (parseTime ''7:05 PM'') = Some 19 \<and>
   parseTime ''12:00 AM'' = Some (setHours 0 0) \<and>
   parseTime ''12:30 PM'' = Some (setHours 12 30) \<and>
   parseTime ''7:05 PM'' = Some (setHours 19 5) \<and>
   parseTime '''' = None \<and>
   parseTime ''garbage'' = None \<and>
   (\<not> contains_time s \<longrightarrow> parseTime s = None)"
proof -
  have "map_option getHours (parseTime ''12:00 AM'') = Some 0" by code_simp
  moreover have "map_option getHours (parseTime ''12:30 PM'') = Some 12" by code_simp
  moreover have "map_option getHours (parseTime ''7:05 PM'') = Some 19" by code_simp
  moreover have "parseTime ''12:00 AM'' = Some (setHours 0 0)" by code_simp
  moreover have "parseTime ''12:30 PM'' = Some (setHours 12 30)" by code_simp
  moreover have "parseTime ''7:05 PM'' = Some (setHours 19 5)" by code_simp
  moreover have "parseTime '''' = None" by code_simp
  moreover have "parseTime ''garbage'' = None" by code_simp
  moreover have "\<not> contains_time s \<longrightarrow> parseTime s = None"
    using parseTime_Some_iff [of s] by blast
  ultimately show ?thesis by blast
qed

text \<open>The theorem of C4 at a string that holds no time token.\<close>

theorem parseTime_hours_and_null_witness:
  "\<not> contains_time ''8 o clock'' \<and> parseTime ''8 o clock'' = None"
proof -
  have "time_match ''8 o clock'' = None" by code_simp
  then have "\<not> contains_time ''8 o clock''"
    using time_match_contains [of "''8 o clock''"] by simp
  then show ?thesis
    using parseTime_hours_and_null [of "''8 o clock''"] by simp
qed

text \<open>
  C10. \<open>parseTime\<close> returns a \<open>Date\<close> for every string that has a substring
  matching the pattern (one or two digits, a colon, two digits, optional white
  space, \<^verbatim>\<open>AM\<close> or \<^verbatim>\<open>PM\<close> in either case), whatever surrounds it: the match is not
  anchored. In a time range the first occurrence decides.
\<close>

theorem parseTime_finds_embedded_time:
  "(contains_time s \<longrightarrow> parseTime s \<noteq> None) \<and>
   parseTime ''Lunch at 12:30pm sharp'' = Some (setHours 12 30) \<and>
   parseTime ''7:00 AM - 8:00 AM'' = Some (setHours 7 0)"
proof -
  have "contains_time s \<longrightarrow> parseTime s \<noteq> None"
    using parseTime_Some_iff [of s] by blast
  moreover have "parseTime ''Lunch at 12:30pm sharp'' = Some (setHours 12 30)" by code_simp
  moreover have "parseTime ''7:00 AM - 8:00 AM'' = Some (setHours 7 0)" by code_simp
  ultimately show ?thesis by blast
qed

text \<open>The theorem of C10 at a sentence with a time in the middle.\<close>

theorem parseTime_finds_embedded_time_witness:
  "contains_time ''see you at 9:15 am, ok'' \<and> parseTime ''see you at 9:15 am, ok'' \<noteq> None"
proof -
  have "time_token (''9'' @ '':'' @ ''15'' @ '' '' @ ''am'')"
    unfolding time_token_def
    by (intro exI [of _ "''9''"] exI [of _ "''15''"] exI [of _ "'' ''"] exI [of _ "''am''"])
       (simp add: isDigit_def isSpace_def period_strings_def)
  then have "''see you at 9:15 am, ok'' = ''see you at '' @ ''9:15 am'' @ '', ok'' \<and> time_token ''9:15 am''"
    by simp
  then have c: "contains_time ''see you at 9:15 am, ok''"
    unfolding contains_time_def by blast
  then show ?thesis
    using parseTime_finds_embedded_time [of "''see you at 9:15 am, ok''"] by simp
qed

section \<open>A failed generation\<close>

text \<open>
  C1, as the code has it. \<^verbatim>\<open>handleGenerate\<close> sets the schedule to \<^verbatim>\<open>null\<close> and the
  completion map to the empty map before it calls the generation service. When
  the call fails, the state afterwards has no schedule, an empty completion map,
  the service's error message and the loading flag off, whatever the state was
  before; the schedule and the completion map are the ones from before exactly
  when there was no schedule and no completed task before.
\<close>

theorem generate_failure_clears_state:
  "handleGenerate None s =
     \<lparr>schedule = None, isLoading = False,
      error = Some ''Failed to generate schedule from AI. Please check your API key and try again.'',
      completedTasks = Map.empty\<rparr> \<and>
   ((schedule (handleGenerate None s) = schedule s \<and>
     completedTasks (handleGenerate None s) = completedTasks s) \<longleftrightarrow>
    (schedule s = None \<and> completedTasks s = Map.empty))"
  by (cases s) (auto simp: handleGenerate_def generatePlannerSchedule_def catch_generate_def)

text \<open>
  C1 as stated fails on a state that holds a schedule and a completed task: after
  the failed generation the schedule is gone and the completion flag with it.
\<close>

theorem generate_failure_counterexample:
  "schedule ex_app_state = Some [ex_block 0 [Some ex_task_a]] \<and>
   schedule (handleGenerate None ex_app_state) = None \<and>
   completedTasks ex_app_state ''0-0'' = Some True \<and>
   completedTasks (handleGenerate None ex_app_state) ''0-0'' = None"
  by (simp add: handleGenerate_def generatePlannerSchedule_def catch_generate_def ex_app_state_def)

section \<open>Reminders\<close>

text \<open>
  What one run of the interval callback does. A notification is raised for a block
  only if the start of its time range parses, the current time lies in the window
  from \<open>reminderTime\<close> minutes before the start (inclusive) to the start
  (exclusive), and the block's id is not in \<^verbatim>\<open>notifiedBlockIds\<close>; so a block whose
  start time has passed is not notified late, and a block whose start time does
  not parse is never notified. A block that was notified is in the set afterwards
  and is not notified by the next run, as long as the set is not reset.
\<close>

lemma tick_fires_in_window:
  assumes "b \<in> set (fst (tick now pd))"
  shows "\<exists>timePart rest startTime.
           split (time b) ''-'' = timePart # rest \<and> parseTime timePart = Some startTime \<and>
           startTime - reminderTime pd * 60 * 1000 \<le> now \<and> now < startTime \<and>
           block_id b \<notin> notifiedBlockIds pd \<and> b \<in> set (blocks pd) \<and>
           reminderTime pd \<noteq> 0 \<and> notification_permission pd = Granted"
  using assms
  by (auto simp: tick_def block_due_def Let_def split: if_splits list.splits option.splits)

lemma tick_skips_unparsed:
  assumes "split (time b) ''-'' = timePart # rest" "parseTime timePart = None"
  shows "b \<notin> set (fst (tick now pd))"
  using assms tick_fires_in_window [of b now pd] by auto

lemma tick_marks_notified:
  assumes "b \<in> set (fst (tick now pd))"
  shows "block_id b \<in> notifiedBlockIds (snd (tick now pd))"
  using assms by (auto simp: tick_def Let_def split: if_splits)

lemma tick_keeps_notified:
  "notifiedBlockIds pd \<subseteq> notifiedBlockIds (snd (tick now pd))"
  by (auto simp: tick_def Let_def)

lemma tick_once:
  assumes "b \<in> set (fst (tick now pd))"
  shows "b \<notin> set (fst (tick now' (snd (tick now pd))))"
  using tick_marks_notified [OF assms] tick_fires_in_window [of b now' "snd (tick now pd)"]
  by auto

text \<open>
  As long as the view is rendered with the same array of blocks (only the interval
  callback runs), and the blocks have distinct ids, no block id is notified twice.
\<close>

lemma tick_blocks: "blocks (snd (tick now pd)) = blocks pd"
  by (simp add: tick_def Let_def)

lemma block_due_not_notified: "block_due r now N b \<Longrightarrow> block_id b \<notin> N"
  by (cases "split (time b) ''-''")
     (auto simp: block_due_def split: option.splits)

lemma tick_fired_ids:
  assumes "distinct (map block_id (blocks pd))"
  shows "distinct (map block_id (fst (tick now pd))) \<and>
   set (map block_id (fst (tick now pd))) \<inter> notifiedBlockIds pd = {} \<and>
   notifiedBlockIds (snd (tick now pd)) = notifiedBlockIds pd \<union> set (map block_id (fst (tick now pd)))"
proof (cases "reminderTime pd = 0 \<or> notification_permission pd \<noteq> Granted \<or> blocks pd = []")
  case True
  then show ?thesis by (simp add: tick_def)
next
  case False
  define fired where "fired = filter (block_due (reminderTime pd) now (notifiedBlockIds pd)) (blocks pd)"
  have t: "tick now pd = (fired, pd\<lparr>notifiedBlockIds := notifiedBlockIds pd \<union> set (map block_id fired)\<rparr>)"
    using False by (simp add: tick_def Let_def fired_def)
  have "distinct (map block_id fired)"
    using assms by (simp add: fired_def distinct_map_filter)
  moreover have "set (map block_id fired) \<inter> notifiedBlockIds pd = {}"
    by (auto simp: fired_def dest: block_due_not_notified)
  ultimately show ?thesis using t by simp
qed

lemma ticks_notify_once:
  "distinct (map block_id (blocks pd)) \<Longrightarrow>
   distinct (map block_id (fst (run_events (map Tick ts) pd))) \<and>
   set (map block_id (fst (run_events (map Tick ts) pd))) \<inter> notifiedBlockIds pd = {}"
proof (induction ts arbitrary: pd)
  case Nil
  then show ?case by simp
next
  case (Cons t ts)
  define pd1 where "pd1 = snd (tick t pd)"
  define fired where "fired = fst (tick t pd)"
  define later where "later = fst (run_events (map Tick ts) pd1)"
  have d1: "distinct (map block_id (blocks pd1))"
    using Cons.prems by (simp add: pd1_def tick_blocks)
  from Cons.IH [OF d1] have l: "distinct (map block_id later)"
      "set (map block_id later) \<inter> notifiedBlockIds pd1 = {}"
    by (simp_all add: later_def)
  from tick_fired_ids [OF Cons.prems, of t] have f: "distinct (map block_id fired)"
     "set (map block_id fired) \<inter> notifiedBlockIds pd = {}"
     "notifiedBlockIds pd1 = notifiedBlockIds pd \<union> set (map block_id fired)"
    by (simp_all add: fired_def pd1_def)
  have run: "fst (run_events (map Tick (t # ts)) pd) = fired @ later"
    by (simp add: fired_def later_def pd1_def case_prod_unfold Let_def)
  have "distinct (map block_id (fired @ later))"
    using l f by auto
  moreover have "set (map block_id (fired @ later)) \<inter> notifiedBlockIds pd = {}"
    using l f by auto
  ultimately show ?case using run by simp
qed

text \<open>
  C3, what the code does between two generations. The view holds one block that
  starts at 8:00 AM, with a reminder of five minutes. The interval callback runs
  at 7:56 and notifies block 0. The user then edits the text of a task: the store
  hands the view a new array, the effect that depends on \<^verbatim>\<open>blocks\<close> empties
  \<^verbatim>\<open>notifiedBlockIds\<close>, and the callback that runs at 7:57 notifies block 0 a second
  time, though no schedule was generated in between. Without the edit the second
  run raises nothing.
\<close>

theorem edit_renotifies_block:
  "map block_id (fst (run_events
       [Tick (setHours 7 56), UpdateTaskText 0 0 ''Write the report'', Tick (setHours 7 57)]
       ex_display)) = [0, 0] \<and>
   map block_id (fst (run_events
       [Tick (setHours 7 56), Tick (setHours 7 57)] ex_display)) = [0]"
  by code_simp

end
